theory Spec2Isabelle
  imports Main "HOL-Library.AList" "HOL-Library.Sublist"
begin

section \<open>Python values\<close>

text \<open>
  A Python \<open>str\<close> is modelled as a \<open>string\<close>, each \<open>char\<close> read as the code point of the
  same number (the Latin-1 range of Python's strings). \<open>isalnum\<close> and \<open>isspace\<close> are
  \<open>str.isalnum\<close> and \<open>str.isspace\<close> on that range.
\<close>

definition isalnum :: "char \<Rightarrow> bool" where
  "isalnum c =
     (let n = (of_char c :: nat) in
        (48 \<le> n \<and> n \<le> 57) \<or> (65 \<le> n \<and> n \<le> 90) \<or> (97 \<le> n \<and> n \<le> 122)
        \<or> n = 170 \<or> n = 178 \<or> n = 179 \<or> n = 181 \<or> n = 185 \<or> n = 186
        \<or> n = 188 \<or> n = 189 \<or> n = 190
        \<or> (192 \<le> n \<and> n \<le> 214) \<or> (216 \<le> n \<and> n \<le> 246) \<or> 248 \<le> n)"

definition isspace :: "char \<Rightarrow> bool" where
  "isspace c =
     (let n = (of_char c :: nat) in
        (9 \<le> n \<and> n \<le> 13) \<or> (28 \<le> n \<and> n \<le> 32) \<or> n = 133 \<or> n = 160)"

definition rstrip :: "string \<Rightarrow> string" where
  "rstrip s = rev (dropWhile isspace (rev s))"

section \<open>File names\<close>

text \<open>
  \<^verbatim>\<open>
  def create_file_name(filename, extension):
      keepcharacters = (' ', '.', '_')
      safe_filename = "".join(c for c in filename if c.isalnum() or c in keepcharacters).rstrip()
      return f"{safe_filename}.{extension}"
  \<close>
\<close>

definition keepcharacters :: "char list" where
  "keepcharacters = [CHR '' '', CHR ''.'', CHR ''_'']"

definition create_file_name :: "string \<Rightarrow> string \<Rightarrow> string" where
  "create_file_name filename extension =
     (let safe_filename = rstrip (filter (\<lambda>c. isalnum c \<or> c \<in> set keepcharacters) filename)
      in safe_filename @ ''.'' @ extension)"

text \<open>The characters the claim says are kept: alphanumerics, space, period, underscore.\<close>

definition kept_char :: "char \<Rightarrow> bool" where
  "kept_char c = (isalnum c \<or> c = CHR '' '' \<or> c = CHR ''.'' \<or> c = CHR ''_'')"

section \<open>The flowchart model: \<open>MermaidDiagram\<close>\<close>

text \<open>
  A node is the dictionary \<open>{"id", "name", "parent", "children"}\<close> that \<open>add_node\<close>
  stores. The dictionary \<open>self.nodes\<close> is an association list in insertion order; it is
  also the store of the node objects, so a reference to a node object (an element of a
  \<open>children\<close> list or of \<open>roots\<close>) is the key under which the object is stored.
  Identifiers and names are strings; \<open>None\<close> is the \<open>None\<close> of Python.
\<close>

record node =
  n_id :: string
  n_name :: string
  n_parent :: "string option"
  n_children :: "string list"

record link =
  l_source :: "string option"
  l_target :: "string option"
  l_label :: "string option"

record MermaidDiagram =
  d_name :: string
  nodes :: "(string \<times> node) list"
  links :: "link list"

abbreviation tab :: char where "tab \<equiv> CHR 0x09"
abbreviation newline :: char where "newline \<equiv> CHR 0x0A"
abbreviation dquote :: char where "dquote \<equiv> CHR 0x22"

definition MermaidDiagram_init :: "string \<Rightarrow> MermaidDiagram" where
  "MermaidDiagram_init nm = \<lparr>d_name = nm, nodes = [], links = []\<rparr>"

text \<open>\<open>name.replace('"', '&quot;')\<close>\<close>

definition escape_quotes :: "string \<Rightarrow> string" where
  "escape_quotes s = concat (map (\<lambda>c. if c = dquote then ''&quot;'' else [c]) s)"

text \<open>
  \<^verbatim>\<open>
  def add_node(self, id, name, parent_id=None):
      safe_id = "".join(c for c in id if c.isalnum() or c in ('_',))
      safe_name = name.replace('"', '&quot;')
      self.nodes[id] = {"id": safe_id, "name": safe_name, "parent": parent_id, "children": []}
  \<close>
  Assigning to a key of a Python dictionary keeps the key's position when the key is
  there and appends it otherwise, which is \<open>AList.update\<close>.
\<close>

definition add_node :: "string \<Rightarrow> string \<Rightarrow> string option \<Rightarrow> MermaidDiagram \<Rightarrow> MermaidDiagram" where
  "add_node ident nm parent_id d =
     (let safe_id = filter (\<lambda>c. isalnum c \<or> c = CHR ''_'') ident;
          safe_name = escape_quotes nm
      in d\<lparr>nodes := AList.update ident
              \<lparr>n_id = safe_id, n_name = safe_name, n_parent = parent_id, n_children = []\<rparr>
              (nodes d)\<rparr>)"

definition add_link :: "string option \<Rightarrow> string option \<Rightarrow> string option \<Rightarrow> MermaidDiagram \<Rightarrow> MermaidDiagram" where
  "add_link source_id target_id lbl d =
     d\<lparr>links := links d @ [\<lparr>l_source = source_id, l_target = target_id, l_label = lbl\<rparr>]\<rparr>"

text \<open>
  \<open>generate\<close>, first loop: every node's \<open>children\<close> becomes the empty list.
\<close>

definition reset_children :: "(string \<times> node) list \<Rightarrow> (string \<times> node) list" where
  "reset_children ns = map (\<lambda>(k, n). (k, n\<lparr>n_children := []\<rparr>)) ns"

text \<open>
  The test \<open>node["parent"] and node["parent"] in self.nodes\<close>.
\<close>

definition attached :: "(string \<times> node) list \<Rightarrow> node \<Rightarrow> bool" where
  "attached ns n = (case n_parent n of None \<Rightarrow> False | Some p \<Rightarrow> p \<noteq> [] \<and> p \<in> fst ` set ns)"

text \<open>
  Second loop, one iteration: the node is appended to its parent's \<open>children\<close> or to
  \<open>roots\<close>.
\<close>

definition link_step ::
  "string \<times> node \<Rightarrow> (string \<times> node) list \<times> string list \<Rightarrow> (string \<times> node) list \<times> string list" where
  "link_step item st =
     (case item of (node_id, n) \<Rightarrow> (case st of (ns, roots) \<Rightarrow>
        if attached ns n
        then (AList.map_entry (the (n_parent n)) (\<lambda>p. p\<lparr>n_children := n_children p @ [node_id]\<rparr>) ns,
              roots)
        else (ns, roots @ [node_id])))"

text \<open>
  \<open>render_node\<close> recurses through the \<open>children\<close> lists. The first argument bounds the
  depth of the recursion; \<open>None\<close> says that the bound was reached (or that a reference is
  not a key of the store, which the loops above never produce). The recursion limit of
  the interpreter is not modelled.
\<close>

fun render_node :: "nat \<Rightarrow> (string \<times> node) list \<Rightarrow> string \<Rightarrow> nat \<Rightarrow> string option"
  and render_nodes :: "nat \<Rightarrow> (string \<times> node) list \<Rightarrow> string list \<Rightarrow> nat \<Rightarrow> string option" where
  "render_node 0 ns k indent = None"
| "render_node (Suc fuel) ns k indent =
     (case map_of ns k of
        None \<Rightarrow> None
      | Some n \<Rightarrow>
          (let tb = replicate indent tab in
           if n_children n \<noteq> []
           then (case render_nodes fuel ns (n_children n) (indent + 1) of
                   None \<Rightarrow> None
                 | Some body \<Rightarrow>
                     Some (tb @ ''subgraph '' @ n_id n @ '' ['' @ [dquote] @ n_name n @ [dquote]
                            @ '']'' @ [newline] @ body @ tb @ ''end'' @ [newline]))
           else Some (tb @ n_id n @ ''['' @ [dquote] @ n_name n @ [dquote] @ '']'' @ [newline])))"
| "render_nodes fuel ns [] indent = Some []"
| "render_nodes fuel ns (k # ks) indent =
     (case render_node fuel ns k indent of
        None \<Rightarrow> None
      | Some s \<Rightarrow> (case render_nodes fuel ns ks indent of
                    None \<Rightarrow> None
                  | Some r \<Rightarrow> Some (s @ r)))"

text \<open>The last loop of \<open>generate\<close>: the line of one link, or nothing.\<close>

definition nodes_get :: "(string \<times> node) list \<Rightarrow> string option \<Rightarrow> node option" where
  "nodes_get ns key = (case key of None \<Rightarrow> None | Some k \<Rightarrow> map_of ns k)"

definition link_line :: "(string \<times> node) list \<Rightarrow> link \<Rightarrow> string" where
  "link_line ns l =
     (case (nodes_get ns (l_source l), nodes_get ns (l_target l)) of
        (Some src, Some tgt) \<Rightarrow>
          (case l_label l of
             Some lb \<Rightarrow>
               if lb \<noteq> []
               then [tab] @ n_id src @ '' -->|'' @ lb @ ''| '' @ n_id tgt @ [newline]
               else [tab] @ n_id src @ '' --> '' @ n_id tgt @ [newline]
           | None \<Rightarrow> [tab] @ n_id src @ '' --> '' @ n_id tgt @ [newline])
      | _ \<Rightarrow> [])"

text \<open>
  \<open>generate\<close> returns the text and leaves the \<open>children\<close> lists it has rebuilt in the
  node objects. The recursion of \<open>render_node\<close> gets one level per node and one more.
\<close>

definition generate :: "MermaidDiagram \<Rightarrow> string option \<times> MermaidDiagram" where
  "generate d =
     (let ns0 = reset_children (nodes d);
          (ns, roots) = fold link_step ns0 (ns0, []);
          graph_data = ''flowchart TD'' @ [newline]
      in (case render_nodes (Suc (length ns)) ns roots 1 of
            None \<Rightarrow> None
          | Some body \<Rightarrow> Some (graph_data @ body @ concat (map (link_line ns) (links d))),
          d\<lparr>nodes := ns\<rparr>))"

text \<open>
  What the second loop computes, written as comprehensions over the items: the keys of the
  nodes attached to \<open>k\<close>, and the keys of the roots, both in the order of the items.
\<close>

definition kids :: "(string \<times> node) list \<Rightarrow> (string \<times> node) list \<Rightarrow> string \<Rightarrow> string list" where
  "kids ns items k = map fst (filter (\<lambda>(c, m). attached ns m \<and> n_parent m = Some k) items)"

definition root_keys :: "(string \<times> node) list \<Rightarrow> (string \<times> node) list \<Rightarrow> string list" where
  "root_keys ns items = map fst (filter (\<lambda>(c, m). \<not> attached ns m) items)"

text \<open>
  The depth of a node below its root, following the parent pointers; and the stores in
  which every element of a \<open>children\<close> list is a node attached to the owner of the list.
\<close>

inductive depth :: "(string \<times> node) list \<Rightarrow> string \<Rightarrow> nat \<Rightarrow> bool" for ns where
  depth_root: "map_of ns k = Some m \<Longrightarrow> \<not> attached ns m \<Longrightarrow> depth ns k 0"
| depth_child: "map_of ns c = Some m \<Longrightarrow> attached ns m \<Longrightarrow> n_parent m = Some k \<Longrightarrow> depth ns k d
     \<Longrightarrow> depth ns c (Suc d)"

definition well_linked :: "(string \<times> node) list \<Rightarrow> bool" where
  "well_linked ns = (\<forall>k n c. map_of ns k = Some n \<longrightarrow> c \<in> set (n_children n) \<longrightarrow>
      (\<exists>m. map_of ns c = Some m \<and> attached ns m \<and> n_parent m = Some k))"

section \<open>JSON values and the Python operations on them\<close>

text \<open>
  What \<open>response.json()\<close> returns. A JSON object is a dictionary in the order of its keys;
  \<open>JNull\<close> is \<open>None\<close>. Numbers are integers here: the program never computes with a
  number of a response, it only tests numbers for truth and compares step indices.
\<close>

datatype json =
    JNull
  | JBool bool
  | JNum int
  | JStr string
  | JArr "json list"
  | JObj "(string \<times> json) list"

text \<open>
  The exceptions the program can raise. \<open>Unsupported\<close> is not an exception of Python: it
  marks an input outside the modelled domain (an identifier, a name or a label that is
  neither a string nor \<open>None\<close>), about which the model says nothing.
\<close>

datatype error = TypeError | KeyError | AttributeError | IndexError | JSONDecodeError | Unsupported

text \<open>Truth value testing: \<open>if x\<close>, \<open>not x\<close>.\<close>

fun truthy :: "json \<Rightarrow> bool" where
  "truthy JNull = False"
| "truthy (JBool b) = b"
| "truthy (JNum n) = (n \<noteq> 0)"
| "truthy (JStr s) = (s \<noteq> [])"
| "truthy (JArr xs) = (xs \<noteq> [])"
| "truthy (JObj kvs) = (kvs \<noteq> [])"

definition isinstance_dict :: "json \<Rightarrow> bool" where
  "isinstance_dict j = (case j of JObj _ \<Rightarrow> True | _ \<Rightarrow> False)"

definition isinstance_list :: "json \<Rightarrow> bool" where
  "isinstance_list j = (case j of JArr _ \<Rightarrow> True | _ \<Rightarrow> False)"

text \<open>
  \<open>key in x\<close> for a string \<open>key\<close>: a key of a dictionary, an element of a list, a
  substring of a string; \<open>TypeError\<close> on the values that are not containers.
\<close>

definition contains :: "string \<Rightarrow> json \<Rightarrow> error + bool" where
  "contains key j =
     (case j of
        JObj kvs \<Rightarrow> Inr (key \<in> fst ` set kvs)
      | JArr xs \<Rightarrow> Inr (JStr key \<in> set xs)
      | JStr s \<Rightarrow> Inr (sublist key s)
      | _ \<Rightarrow> Inl TypeError)"

text \<open>\<open>x.get(key, default)\<close>: only a dictionary has the method.\<close>

definition py_get :: "json \<Rightarrow> string \<Rightarrow> json \<Rightarrow> error + json" where
  "py_get j key dflt =
     (case j of
        JObj kvs \<Rightarrow> Inr (case map_of kvs key of None \<Rightarrow> dflt | Some v \<Rightarrow> v)
      | _ \<Rightarrow> Inl AttributeError)"

text \<open>\<open>x[key]\<close> for a string \<open>key\<close>.\<close>

definition subscript :: "json \<Rightarrow> string \<Rightarrow> error + json" where
  "subscript j key =
     (case j of
        JObj kvs \<Rightarrow> (case map_of kvs key of None \<Rightarrow> Inl KeyError | Some v \<Rightarrow> Inr v)
      | _ \<Rightarrow> Inl TypeError)"

text \<open>\<open>len(x)\<close>, which the debug messages call.\<close>

definition py_len :: "json \<Rightarrow> error + nat" where
  "py_len j =
     (case j of
        JObj kvs \<Rightarrow> Inr (length kvs)
      | JArr xs \<Rightarrow> Inr (length xs)
      | JStr s \<Rightarrow> Inr (length s)
      | _ \<Rightarrow> Inl TypeError)"

text \<open>\<open>for x in j\<close>: the elements of a list, the keys of a dictionary, the characters of a string.\<close>

definition py_iter :: "json \<Rightarrow> error + json list" where
  "py_iter j =
     (case j of
        JArr xs \<Rightarrow> Inr xs
      | JObj kvs \<Rightarrow> Inr (map (\<lambda>kv. JStr (fst kv)) kvs)
      | JStr s \<Rightarrow> Inr (map (\<lambda>c. JStr [c]) s)
      | _ \<Rightarrow> Inl TypeError)"

text \<open>\<open>a or b\<close>\<close>

definition py_or :: "json \<Rightarrow> json \<Rightarrow> json" where
  "py_or a b = (if truthy a then a else b)"

text \<open>
  An identifier, name or label read from a response, as the typed part of the model takes
  it: a string, or \<open>None\<close>.
\<close>

definition opt_str :: "json \<Rightarrow> error + string option" where
  "opt_str j = (case j of JNull \<Rightarrow> Inr None | JStr s \<Rightarrow> Inr (Some s) | _ \<Rightarrow> Inl Unsupported)"

text \<open>Truth of an optional string: \<open>None\<close> and the empty string are false.\<close>

definition truthy_str :: "string option \<Rightarrow> bool" where
  "truthy_str x = (case x of None \<Rightarrow> False | Some s \<Rightarrow> s \<noteq> [])"

section \<open>The service, the caches and the log of requests\<close>

text \<open>
  A response is its status code and the value \<open>response.json()\<close> parses from its body
  (\<open>None\<close> when the body is not JSON and \<open>json()\<close> raises). The service is a function from
  the URL to the response: every request is answered, a failure of the transport is not
  modelled. The state of a run is the two module-level dictionaries and the list of the
  URLs requested so far; the messages the program prints are left out.
\<close>

record response =
  status_code :: int
  parsed :: "json option"

record env =
  landscape_id :: string
  version_id :: string
  api :: "string \<Rightarrow> response"

record world =
  model_objects :: "(string option \<times> json) list"
  diagram_cache :: "(string \<times> json) list"
  requests :: "string list"

definition empty_world :: world where
  "empty_world = \<lparr>model_objects = [], diagram_cache = [], requests = []\<rparr>"

definition requests_get :: "env \<Rightarrow> string \<Rightarrow> world \<Rightarrow> response \<times> world" where
  "requests_get e url w = (api e url, w\<lparr>requests := requests w @ [url]\<rparr>)"

definition response_json :: "response \<Rightarrow> error + json" where
  "response_json r = (case parsed r of None \<Rightarrow> Inl JSONDecodeError | Some j \<Rightarrow> Inr j)"

definition base_url :: "env \<Rightarrow> string" where
  "base_url e = ''https://api.icepanel.io/v1/landscapes/'' @ landscape_id e @ ''/versions/'' @ version_id e"

definition model_object_url :: "env \<Rightarrow> string \<Rightarrow> string" where
  "model_object_url e model_object_id = base_url e @ ''/model/objects/'' @ model_object_id"

definition diagram_url :: "env \<Rightarrow> string \<Rightarrow> string" where
  "diagram_url e diagram_id = base_url e @ ''/diagrams/'' @ diagram_id"

definition connections_url :: "env \<Rightarrow> string" where
  "connections_url e = base_url e @ ''/model/connections''"

subsection \<open>\<open>get_model_object\<close>\<close>

text \<open>
  \<^verbatim>\<open>
  def get_model_object(model_object_id):
      if model_object_id in model_objects:
          return model_objects[model_object_id]
      if model_object_id is None:
          return {"id": None, "name": "Unknown", "type": "unknown"}
      rmodel = requests.get(f".../model/objects/{model_object_id}", headers=headers)
      model_object = rmodel.json()
      if "modelObject" in model_object:
          model_object = model_object["modelObject"]
      elif "id" not in model_object:
          model_object = {"id": model_object_id, "name": "Unknown Model Object", "type": "unknown"}
      model_objects[model_object_id] = model_object
      return model_object
  \<close>
\<close>

definition unknown_object :: json where
  "unknown_object = JObj [(''id'', JNull), (''name'', JStr ''Unknown''), (''type'', JStr ''unknown'')]"

definition dummy_object :: "string \<Rightarrow> json" where
  "dummy_object model_object_id =
     JObj [(''id'', JStr model_object_id), (''name'', JStr ''Unknown Model Object''),
           (''type'', JStr ''unknown'')]"

definition store_model_object :: "string \<Rightarrow> json \<Rightarrow> world \<Rightarrow> (error + json) \<times> world" where
  "store_model_object model_object_id model_object w =
     (Inr model_object,
      w\<lparr>model_objects := AList.update (Some model_object_id) model_object (model_objects w)\<rparr>)"

definition get_model_object :: "env \<Rightarrow> string option \<Rightarrow> world \<Rightarrow> (error + json) \<times> world" where
  "get_model_object e model_object_id w =
     (case map_of (model_objects w) model_object_id of
        Some cached \<Rightarrow> (Inr cached, w)
      | None \<Rightarrow>
          (case model_object_id of
             None \<Rightarrow> (Inr unknown_object, w)
           | Some mid \<Rightarrow>
               (case requests_get e (model_object_url e mid) w of (rmodel, w1) \<Rightarrow>
                  (case response_json rmodel of
                     Inl err \<Rightarrow> (Inl err, w1)
                   | Inr model_object \<Rightarrow>
                       (case contains ''modelObject'' model_object of
                          Inl err \<Rightarrow> (Inl err, w1)
                        | Inr True \<Rightarrow>
                            (case subscript model_object ''modelObject'' of
                               Inl err \<Rightarrow> (Inl err, w1)
                             | Inr inner \<Rightarrow> store_model_object mid inner w1)
                        | Inr False \<Rightarrow>
                            (case contains ''id'' model_object of
                               Inl err \<Rightarrow> (Inl err, w1)
                             | Inr True \<Rightarrow> store_model_object mid model_object w1
                             | Inr False \<Rightarrow> store_model_object mid (dummy_object mid) w1))))))"

subsection \<open>\<open>get_diagram_data\<close>\<close>

text \<open>Sequencing of steps that may raise.\<close>

definition bind_err :: "error + 'a \<Rightarrow> ('a \<Rightarrow> error + 'b) \<Rightarrow> error + 'b" where
  "bind_err m f = (case m of Inl err \<Rightarrow> Inl err | Inr x \<Rightarrow> f x)"

text \<open>\<open>d[key] = v\<close> and \<open>list(d.values())\<close>.\<close>

definition setitem :: "json \<Rightarrow> string \<Rightarrow> json \<Rightarrow> error + json" where
  "setitem j key v = (case j of JObj kvs \<Rightarrow> Inr (JObj (AList.update key v kvs)) | _ \<Rightarrow> Inl TypeError)"

definition dict_values :: "json \<Rightarrow> json" where
  "dict_values j = (case j of JObj kvs \<Rightarrow> JArr (map snd kvs) | _ \<Rightarrow> j)"

text \<open>
  The dictionary \<open>sub_resources\<close>, in its order.
\<close>

definition sub_resources :: "(string \<times> string list) list" where
  "sub_resources =
     [(''/content'', [''diagramContent'', ''objects'']),
      (''/objects'', [''objects'']),
      (''/elements'', [''elements'']),
      (''/relationships'', [''relationships''])]"

text \<open>
  The debug message after a find: \<open>if relationships: print(... len(relationships) ...)\<close>.
  It raises when the value is true and has no length.
\<close>

definition print_found :: "json \<Rightarrow> error + json" where
  "print_found rel = (if truthy rel then bind_err (py_len rel) (\<lambda>n. Inr rel) else Inr rel)"

text \<open>
  \<^verbatim>\<open>
  if not relationships:
       if "diagramContent" in data and isinstance(data["diagramContent"], dict):
           relationships = data["diagramContent"].get("relationships", [])
           if relationships: print(...len(relationships)...)
       elif "relationships" in data:
           relationships = data["relationships"]
           if relationships: print(...len(relationships)...)
       elif isinstance(data, list): pass
       else: print(...)
  \<close>
\<close>

definition find_relationships :: "json \<Rightarrow> json \<Rightarrow> error + json" where
  "find_relationships data relationships =
     (if truthy relationships then Inr relationships
      else
        bind_err (contains ''diagramContent'' data) (\<lambda>has_content.
        bind_err (if has_content then subscript data ''diagramContent'' else Inr JNull) (\<lambda>content.
          if has_content \<and> isinstance_dict content
          then bind_err (py_get content ''relationships'' (JArr [])) print_found
          else
            bind_err (contains ''relationships'' data) (\<lambda>has_rel.
              if has_rel then bind_err (subscript data ''relationships'') print_found
              else Inr relationships))))"

text \<open>
  \<^verbatim>\<open>
  if suffix == "/relationships":
      if isinstance(data, list): relationships = data
      elif isinstance(data, dict):
           if "relationships" in data: relationships = data["relationships"]
  \<close>
\<close>

definition relationships_endpoint :: "string \<Rightarrow> json \<Rightarrow> json \<Rightarrow> json" where
  "relationships_endpoint sfx data relationships =
     (if sfx = ''/relationships''
      then (case data of
              JArr xs \<Rightarrow> data
            | JObj kvs \<Rightarrow> (case map_of kvs ''relationships'' of Some v \<Rightarrow> v | None \<Rightarrow> relationships)
            | _ \<Rightarrow> relationships)
      else relationships)"

text \<open>
  \<^verbatim>\<open>
  temp_obj = data
  valid_path = True
  for key in keys:
      if isinstance(temp_obj, dict) and key in temp_obj: temp_obj = temp_obj[key]
      elif isinstance(temp_obj, dict) and key == "objects" and "objects" not in temp_obj: pass
      else: valid_path = False; break
  \<close>
  \<open>None\<close> is \<open>valid_path = False\<close>.
\<close>

fun drill :: "string list \<Rightarrow> json \<Rightarrow> json option" where
  "drill [] temp_obj = Some temp_obj"
| "drill (key # keys) temp_obj =
     (case temp_obj of
        JObj kvs \<Rightarrow>
          (case map_of kvs key of
             Some v \<Rightarrow> drill keys v
           | None \<Rightarrow> if key = ''objects'' then drill keys temp_obj else None)
      | _ \<Rightarrow> None)"

text \<open>
  \<^verbatim>\<open>
  if valid_path and isinstance(temp_obj, dict) and temp_obj:
      if not objects: objects = temp_obj
  if suffix == "/objects" and not objects and isinstance(data, dict):
      objects = data
      if not relationships and "relationships" in data:
          relationships = data["relationships"]
  \<close>
\<close>

definition find_objects :: "string list \<Rightarrow> json \<Rightarrow> json \<Rightarrow> json" where
  "find_objects keys data objects =
     (case drill keys data of
        Some temp_obj \<Rightarrow>
          if isinstance_dict temp_obj \<and> truthy temp_obj \<and> \<not> truthy objects then temp_obj else objects
      | None \<Rightarrow> objects)"

definition objects_endpoint :: "string \<Rightarrow> json \<Rightarrow> json \<times> json \<Rightarrow> json \<times> json" where
  "objects_endpoint sfx data st =
     (case st of (objects, relationships) \<Rightarrow>
        if sfx = ''/objects'' \<and> \<not> truthy objects \<and> isinstance_dict data
        then (data,
              if \<not> truthy relationships \<and> contains ''relationships'' data = Inr True
              then (case subscript data ''relationships'' of Inr v \<Rightarrow> v | Inl err \<Rightarrow> relationships)
              else relationships)
        else (objects, relationships))"

text \<open>The body of the loop over the sub-resources, for a response of status 200.\<close>

definition sub_resource_step :: "string \<Rightarrow> string list \<Rightarrow> json \<Rightarrow> json \<times> json \<Rightarrow> error + json \<times> json" where
  "sub_resource_step sfx keys data st =
     (case st of (objects, relationships) \<Rightarrow>
        bind_err (find_relationships data relationships) (\<lambda>rel1.
          Inr (objects_endpoint sfx data
                 (find_objects keys data objects, relationships_endpoint sfx data rel1))))"

text \<open>
  The loop: one request per sub-resource; a response of another status is skipped; the
  loop ends early once both values are true.
\<close>

fun fetch_sub_resources ::
  "env \<Rightarrow> string \<Rightarrow> (string \<times> string list) list \<Rightarrow> json \<times> json \<Rightarrow> world \<Rightarrow> (error + json \<times> json) \<times> world" where
  "fetch_sub_resources e url [] st w = (Inr st, w)"
| "fetch_sub_resources e url ((sfx, keys) # rest) st w =
     (case requests_get e (url @ sfx) w of (r_sub, w1) \<Rightarrow>
        if status_code r_sub = 200
        then (case bind_err (response_json r_sub) (\<lambda>data. sub_resource_step sfx keys data st) of
                Inl err \<Rightarrow> (Inl err, w1)
              | Inr st1 \<Rightarrow>
                  if truthy (fst st1) \<and> truthy (snd st1) then (Inr st1, w1)
                  else fetch_sub_resources e url rest st1 w1)
        else fetch_sub_resources e url rest st w1)"

text \<open>
  The first look at the main response:
  \<^verbatim>\<open>
  dia = response_json.get("diagram", {})
  objects = dia.get("objects")
  relationships = dia.get("relationships", [])
  if not objects and "diagramContent" in response_json:
      objects = response_json["diagramContent"].get("objects")
  if not relationships and "diagramContent" in response_json:
      relationships = response_json["diagramContent"].get("relationships")
  \<close>
\<close>

definition primary_payload :: "json \<Rightarrow> error + json \<times> json \<times> json" where
  "primary_payload response =
     bind_err (py_get response ''diagram'' (JObj [])) (\<lambda>dia.
     bind_err (py_get dia ''objects'' JNull) (\<lambda>objects.
     bind_err (py_get dia ''relationships'' (JArr [])) (\<lambda>relationships.
     bind_err (if \<not> truthy objects \<and> contains ''diagramContent'' response = Inr True
               then bind_err (subscript response ''diagramContent'') (\<lambda>c. py_get c ''objects'' JNull)
               else Inr objects) (\<lambda>objects1.
     bind_err (if \<not> truthy relationships \<and> contains ''diagramContent'' response = Inr True
               then bind_err (subscript response ''diagramContent'') (\<lambda>c. py_get c ''relationships'' JNull)
               else Inr relationships) (\<lambda>relationships1.
       Inr (dia, objects1, relationships1))))))"

text \<open>
  The end of the function:
  \<^verbatim>\<open>
  if relationships and isinstance(relationships, dict):
      relationships = list(relationships.values())
  if objects is None: dia["objects"] = {}
  else: dia["objects"] = objects
  if not relationships: dia["relationships"] = []
  else: dia["relationships"] = relationships
  return dia
  \<close>
\<close>

definition final_cleanup :: "json \<Rightarrow> json \<Rightarrow> json \<Rightarrow> error + json" where
  "final_cleanup dia objects relationships =
     (let relationships1 =
            (if truthy relationships \<and> isinstance_dict relationships
             then dict_values relationships else relationships)
      in bind_err (setitem dia ''objects'' (if objects = JNull then JObj [] else objects)) (\<lambda>dia1.
           setitem dia1 ''relationships'' (if \<not> truthy relationships1 then JArr [] else relationships1)))"

text \<open>
  \<open>get_diagram_data\<close>. The result \<open>JNull\<close> is the \<open>None\<close> returned for a status other than
  200. No statement of the source assigns to \<open>diagram_cache\<close>.
\<close>

definition get_diagram_data :: "env \<Rightarrow> string \<Rightarrow> world \<Rightarrow> (error + json) \<times> world" where
  "get_diagram_data e diagram_id w =
     (case map_of (diagram_cache w) diagram_id of
        Some cached \<Rightarrow> (Inr cached, w)
      | None \<Rightarrow>
          (let url = diagram_url e diagram_id in
           case requests_get e url w of (rdia, w1) \<Rightarrow>
             if status_code rdia \<noteq> 200 then (Inr JNull, w1)
             else
               (case bind_err (response_json rdia) primary_payload of
                  Inl err \<Rightarrow> (Inl err, w1)
                | Inr (dia, objects, relationships) \<Rightarrow>
                    (case (if \<not> truthy objects \<or> \<not> truthy relationships
                           then fetch_sub_resources e url sub_resources (objects, relationships) w1
                           else (Inr (objects, relationships), w1)) of
                       (Inl err, w2) \<Rightarrow> (Inl err, w2)
                     | (Inr (objects2, relationships2), w2) \<Rightarrow>
                         (final_cleanup dia objects2 relationships2, w2)))))"

subsection \<open>\<open>get_diagram_object\<close>\<close>


subsection \<open>Response shapes on which the resolver raises nothing\<close>

text \<open>
  The \<open>relationships\<close> member of a dictionary, when present, is null, a list or a dictionary.
\<close>

definition relationships_ok :: "(string \<times> json) list \<Rightarrow> bool" where
  "relationships_ok kvs =
     (case map_of kvs ''relationships'' of
        None \<Rightarrow> True
      | Some v \<Rightarrow> v = JNull \<or> isinstance_list v \<or> isinstance_dict v)"

text \<open>
  A sub-resource body: a JSON object with such a \<open>relationships\<close> member, at its root and
  in its \<open>diagramContent\<close> member when that is an object.
\<close>

definition sub_body_ok :: "json \<Rightarrow> bool" where
  "sub_body_ok data =
     (case data of
        JObj kvs \<Rightarrow>
          relationships_ok kvs \<and>
          (case map_of kvs ''diagramContent'' of Some (JObj c) \<Rightarrow> relationships_ok c | _ \<Rightarrow> True)
      | _ \<Rightarrow> False)"

text \<open>
  The main body: a JSON object whose \<open>diagram\<close> and \<open>diagramContent\<close> members, when present,
  are objects.
\<close>

definition main_body_ok :: "json \<Rightarrow> bool" where
  "main_body_ok response =
     (case response of
        JObj kvs \<Rightarrow>
          (case map_of kvs ''diagram'' of None \<Rightarrow> True | Some d \<Rightarrow> isinstance_dict d) \<and>
          (case map_of kvs ''diagramContent'' of None \<Rightarrow> True | Some c \<Rightarrow> isinstance_dict c)
      | _ \<Rightarrow> False)"

definition parsed_ok :: "(json \<Rightarrow> bool) \<Rightarrow> response \<Rightarrow> bool" where
  "parsed_ok P r = (case parsed r of None \<Rightarrow> False | Some j \<Rightarrow> P j)"

definition well_shaped :: "env \<Rightarrow> string \<Rightarrow> bool" where
  "well_shaped e diagram_id =
     (parsed_ok main_body_ok (api e (diagram_url e diagram_id)) \<and>
      list_all (\<lambda>(sfx, keys).
          let r_sub = api e (diagram_url e diagram_id @ sfx)
          in status_code r_sub = 200 \<longrightarrow> parsed_ok sub_body_ok r_sub)
        sub_resources)"

section \<open>\<open>main\<close>, diagram mode\<close>

text \<open>
  The objects and relationships that \<open>main\<close> reads from the resolver's result, as the
  typed values the loops use: every member is read with \<open>.get\<close>, so a missing member is
  \<open>None\<close>; identifiers, names and labels are strings. \<open>o_style\<close> says whether the object
  has a \<open>style\<close> member.
\<close>

record diagram_object =
  o_modelId :: "string option"
  o_parentId :: "string option"
  o_name :: "string option"
  o_type :: "string option"
  o_style :: bool

record relationship =
  r_sourceId :: "string option"
  r_targetId :: "string option"
  r_label :: "string option"
  r_name :: "string option"
  r_modelId :: "string option"

text \<open>
  \<^verbatim>\<open>
  dia_to_model = {}
  if objects:
       for obj_id, obj_data in objects.items():
            if obj_data.get("modelId"):
                dia_to_model[obj_id] = obj_data["modelId"]
  \<close>
\<close>

definition dia_to_model_of :: "(string \<times> diagram_object) list \<Rightarrow> (string \<times> string) list" where
  "dia_to_model_of objects =
     fold (\<lambda>item acc. case item of (obj_id, obj_data) \<Rightarrow>
             (case o_modelId obj_data of
                Some m \<Rightarrow> if m \<noteq> [] then AList.update obj_id m acc else acc
              | None \<Rightarrow> acc))
          objects []"

subsection \<open>Relationships from the model connections\<close>

text \<open>\<open>conn.get(a) or conn.get(b)\<close>\<close>

definition conn_get_or :: "json \<Rightarrow> string \<Rightarrow> string \<Rightarrow> error + json" where
  "conn_get_or conn a b =
     bind_err (py_get conn a JNull) (\<lambda>x. if truthy x then Inr x else py_get conn b JNull)"

text \<open>
  \<open>x in diagram_model_ids\<close>, the set of the values of \<open>dia_to_model\<close>: a list or a
  dictionary cannot be hashed.
\<close>

definition in_model_ids :: "json \<Rightarrow> (string \<times> string) list \<Rightarrow> error + bool" where
  "in_model_ids x dia_to_model =
     (case x of
        JArr _ \<Rightarrow> Inl TypeError
      | JObj _ \<Rightarrow> Inl TypeError
      | JStr s \<Rightarrow> Inr (s \<in> snd ` set dia_to_model)
      | _ \<Rightarrow> Inr False)"

text \<open>\<open>conn.get("diagrams", {}).keys()\<close>\<close>

definition dict_keys :: "json \<Rightarrow> error + string list" where
  "dict_keys j = (case j of JObj kvs \<Rightarrow> Inr (map fst kvs) | _ \<Rightarrow> Inl AttributeError)"

text \<open>\<open>[k for k, v in dia_to_model.items() if v == model_id][0]\<close>\<close>

definition reverse_lookup :: "(string \<times> string) list \<Rightarrow> json \<Rightarrow> error + string" where
  "reverse_lookup dia_to_model model_id =
     (case filter (\<lambda>kv. JStr (snd kv) = model_id) dia_to_model of
        [] \<Rightarrow> Inl IndexError
      | kv # _ \<Rightarrow> Inr (fst kv))"

text \<open>
  One iteration of \<open>for conn in all_conns\<close>:
  \<^verbatim>\<open>
  source_model = conn.get("originId") or conn.get("sourceId")
  target_model = conn.get("targetId") or conn.get("destinationId")
  if source_model in diagram_model_ids and target_model in diagram_model_ids:
       dia_keys = conn.get("diagrams", {}).keys()
       if dia_id in dia_keys or (source_model in diagram_model_ids and target_model in diagram_model_ids):
            relationships.append({
                 "sourceId": [k for k,v in dia_to_model.items() if v == source_model][0],
                 "targetId": [k for k,v in dia_to_model.items() if v == target_model][0],
                 "label": conn.get("name"),
                 "modelId": conn.get("id")})
  \<close>
\<close>

definition infer_step ::
  "string \<Rightarrow> (string \<times> string) list \<Rightarrow> json \<Rightarrow> relationship list \<Rightarrow> error + relationship list" where
  "infer_step dia_id dia_to_model conn relationships =
     bind_err (conn_get_or conn ''originId'' ''sourceId'') (\<lambda>source_model.
     bind_err (conn_get_or conn ''targetId'' ''destinationId'') (\<lambda>target_model.
     bind_err (in_model_ids source_model dia_to_model) (\<lambda>source_in.
     bind_err (if source_in then in_model_ids target_model dia_to_model else Inr False) (\<lambda>target_in.
       if source_in \<and> target_in
       then
         bind_err (bind_err (py_get conn ''diagrams'' (JObj [])) dict_keys) (\<lambda>dia_keys.
           if dia_id \<in> set dia_keys \<or> (source_in \<and> target_in)
           then
             bind_err (reverse_lookup dia_to_model source_model) (\<lambda>source_id.
             bind_err (reverse_lookup dia_to_model target_model) (\<lambda>target_id.
             bind_err (bind_err (py_get conn ''name'' JNull) opt_str) (\<lambda>lbl.
             bind_err (bind_err (py_get conn ''id'' JNull) opt_str) (\<lambda>model_id.
               Inr (relationships @
                      [\<lparr>r_sourceId = Some source_id, r_targetId = Some target_id,
                        r_label = lbl, r_name = None, r_modelId = model_id\<rparr>])))))
           else Inr relationships)
       else Inr relationships))))"

fun infer_loop ::
  "string \<Rightarrow> (string \<times> string) list \<Rightarrow> json list \<Rightarrow> relationship list \<Rightarrow> error + relationship list" where
  "infer_loop dia_id dia_to_model [] relationships = Inr relationships"
| "infer_loop dia_id dia_to_model (conn # conns) relationships =
     bind_err (infer_step dia_id dia_to_model conn relationships)
       (infer_loop dia_id dia_to_model conns)"

text \<open>
  \<^verbatim>\<open>
  if not relationships:
       r_conns = requests.get(f".../model/connections", headers=headers)
       if r_conns.status_code == 200:
            all_conns = r_conns.json().get("modelConnections", [])
            print(f"DEBUG: Found {len(all_conns)} total model connections")
            ...
            for conn in all_conns: ...
  \<close>
\<close>

definition infer_relationships ::
  "env \<Rightarrow> string \<Rightarrow> (string \<times> string) list \<Rightarrow> relationship list \<Rightarrow> world
     \<Rightarrow> (error + relationship list) \<times> world" where
  "infer_relationships e dia_id dia_to_model relationships w =
     (if relationships \<noteq> [] then (Inr relationships, w)
      else
        (case requests_get e (connections_url e) w of (r_conns, w1) \<Rightarrow>
           if status_code r_conns = 200
           then (bind_err (response_json r_conns) (\<lambda>response.
                 bind_err (py_get response ''modelConnections'' (JArr [])) (\<lambda>all_conns.
                 bind_err (py_len all_conns) (\<lambda>n.
                 bind_err (py_iter all_conns) (\<lambda>conns.
                   infer_loop dia_id dia_to_model conns relationships)))),
                 w1)
           else (Inr relationships, w1)))"

subsection \<open>Nodes and hierarchy\<close>


text \<open>
  The parent is added first when it is named, is not a node yet and is a diagram object
  (lines 452-456 for a model object, 473-474 for a group):
  \<^verbatim>\<open>
  if final_parent_id and final_parent_id not in mdia.nodes:
       if final_parent_id in objects:
            p_data = objects[final_parent_id]
            p_name = p_data.get("name", "Group")
            mdia.add_node(final_parent_id, p_name, p_data.get("parentId"))
  \<close>
\<close>

definition ensure_parent ::
  "(string \<times> diagram_object) list \<Rightarrow> string option \<Rightarrow> MermaidDiagram \<Rightarrow> MermaidDiagram" where
  "ensure_parent objects final_parent_id mdia =
     (case final_parent_id of
        None \<Rightarrow> mdia
      | Some p \<Rightarrow>
          if p \<noteq> [] \<and> p \<notin> fst ` set (nodes mdia)
          then (case map_of objects p of
                  Some p_data \<Rightarrow>
                    add_node p (case o_name p_data of None \<Rightarrow> ''Group'' | Some n \<Rightarrow> n)
                      (o_parentId p_data) mdia
                | None \<Rightarrow> mdia)
          else mdia)"

text \<open>
  \<^verbatim>\<open>
  final_parent_id = parent_dia_id
  if not final_parent_id and "parentId" in model_obj:
      p_struct = model_obj["parentId"]
      candidates = [k for k,v in dia_to_model.items() if v == p_struct]
      if candidates:
          final_parent_id = candidates[0]
  \<close>
\<close>

definition resolve_parent ::
  "(string \<times> string) list \<Rightarrow> json \<Rightarrow> string option \<Rightarrow> error + string option" where
  "resolve_parent dia_to_model model_obj parent_dia_id =
     (if \<not> truthy_str parent_dia_id
      then
        bind_err (contains ''parentId'' model_obj) (\<lambda>has_parent.
          if has_parent
          then bind_err (subscript model_obj ''parentId'') (\<lambda>p_struct.
                 case filter (\<lambda>kv. JStr (snd kv) = p_struct) dia_to_model of
                   [] \<Rightarrow> Inr parent_dia_id
                 | kv # _ \<Rightarrow> Inr (Some (fst kv)))
          else Inr parent_dia_id)
      else Inr parent_dia_id)"

text \<open>
  \<open>model_obj["name"]\<close> as the name \<open>add_node\<close> takes: \<open>name.replace\<close> raises on a value
  that is not a string.
\<close>

definition model_name :: "json \<Rightarrow> error + string" where
  "model_name model_obj =
     bind_err (subscript model_obj ''name'') (\<lambda>nm.
       case nm of JStr s \<Rightarrow> Inr s | _ \<Rightarrow> Inl AttributeError)"

text \<open>
  The branch of an object without a model id; \<open>None\<close> is the \<open>continue\<close> of an object
  that cannot be rendered:
  \<^verbatim>\<open>
  name = obj_data.get("name")
  if not name:
      if obj_data.get("type") == "boundary" or "style" in obj_data:
          name = "Group"
      else:
          continue
  parent_id = obj_data.get("parentId")
  if parent_id and parent_id not in mdia.nodes and parent_id in objects:
       mdia.add_node(parent_id, objects[parent_id].get("name", "Group"), objects[parent_id].get("parentId"))
  if obj_id not in mdia.nodes:
      mdia.add_node(obj_id, name, parent_id)
  \<close>
\<close>

definition group_name :: "diagram_object \<Rightarrow> string option" where
  "group_name obj_data =
     (if truthy_str (o_name obj_data) then o_name obj_data
      else if o_type obj_data = Some ''boundary'' \<or> o_style obj_data then Some ''Group''
      else None)"

definition add_group ::
  "(string \<times> diagram_object) list \<Rightarrow> string \<Rightarrow> diagram_object \<Rightarrow> MermaidDiagram \<Rightarrow> MermaidDiagram" where
  "add_group objects obj_id obj_data mdia =
     (case group_name obj_data of
        None \<Rightarrow> mdia
      | Some nm \<Rightarrow>
          (let parent_id = o_parentId obj_data;
               mdia1 = ensure_parent objects parent_id mdia
           in if obj_id \<notin> fst ` set (nodes mdia1) then add_node obj_id nm parent_id mdia1
              else mdia1))"

text \<open>
  One iteration of \<open>for obj_id, obj_data in sorted_items\<close>:
  \<^verbatim>\<open>
  model_id = obj_data.get("modelId")
  parent_dia_id = obj_data.get("parentId")
  if model_id:
      model_obj = get_model_object(model_id)
      final_parent_id = parent_dia_id
      ... (the fallback to the structural parent, then the parent)
      mdia.add_node(obj_id, model_obj["name"], final_parent_id)
  else:
      ... (the branch of an object without a model id)
  \<close>
\<close>

definition hier_step ::
  "env \<Rightarrow> (string \<times> diagram_object) list \<Rightarrow> (string \<times> string) list \<Rightarrow> string \<times> diagram_object
     \<Rightarrow> MermaidDiagram \<Rightarrow> world \<Rightarrow> (error + MermaidDiagram) \<times> world" where
  "hier_step e objects dia_to_model item mdia w =
     (case item of (obj_id, obj_data) \<Rightarrow>
        if truthy_str (o_modelId obj_data)
        then
          (case get_model_object e (o_modelId obj_data) w of
             (Inl err, w1) \<Rightarrow> (Inl err, w1)
           | (Inr model_obj, w1) \<Rightarrow>
               (bind_err (resolve_parent dia_to_model model_obj (o_parentId obj_data)) (\<lambda>final_parent_id.
                bind_err (model_name model_obj) (\<lambda>nm.
                  Inr (add_node obj_id nm final_parent_id
                         (ensure_parent objects final_parent_id mdia)))),
                w1))
        else (Inr (add_group objects obj_id obj_data mdia), w))"



subsection \<open>Links\<close>

text \<open>
  One iteration of \<open>for rel in relationships\<close>:
  \<^verbatim>\<open>
  source_id = rel.get("sourceId")
  target_id = rel.get("targetId")
  label = rel.get("label") or rel.get("name")
  rel_model_id = rel.get("modelId")
  if not label and rel_model_id:
       rel_model = get_model_object(rel_model_id)
       label = rel_model.get("name")
  if (source_id in objects or source_id in mdia.nodes) and (target_id in objects or target_id in mdia.nodes):
      mdia.add_link(source_id, target_id, label)
  \<close>
\<close>

definition endpoint_known :: "(string \<times> diagram_object) list \<Rightarrow> MermaidDiagram \<Rightarrow> string option \<Rightarrow> bool" where
  "endpoint_known objects mdia ident =
     (case ident of
        None \<Rightarrow> False
      | Some i \<Rightarrow> i \<in> fst ` set objects \<or> i \<in> fst ` set (nodes mdia))"

definition rel_label :: "env \<Rightarrow> relationship \<Rightarrow> world \<Rightarrow> (error + string option) \<times> world" where
  "rel_label e rel w =
     (let lbl = (if truthy_str (r_label rel) then r_label rel else r_name rel) in
      if \<not> truthy_str lbl \<and> truthy_str (r_modelId rel)
      then (case get_model_object e (r_modelId rel) w of
              (Inl err, w1) \<Rightarrow> (Inl err, w1)
            | (Inr rel_model, w1) \<Rightarrow>
                (bind_err (py_get rel_model ''name'' JNull) opt_str, w1))
      else (Inr lbl, w))"

definition rel_step ::
  "env \<Rightarrow> (string \<times> diagram_object) list \<Rightarrow> relationship \<Rightarrow> MermaidDiagram \<Rightarrow> world
     \<Rightarrow> (error + MermaidDiagram) \<times> world" where
  "rel_step e objects rel mdia w =
     (case rel_label e rel w of
        (Inl err, w1) \<Rightarrow> (Inl err, w1)
      | (Inr lbl, w1) \<Rightarrow>
          (Inr (if endpoint_known objects mdia (r_sourceId rel)
                   \<and> endpoint_known objects mdia (r_targetId rel)
                then add_link (r_sourceId rel) (r_targetId rel) lbl mdia
                else mdia),
           w1))"

fun add_links ::
  "env \<Rightarrow> (string \<times> diagram_object) list \<Rightarrow> relationship list \<Rightarrow> MermaidDiagram \<Rightarrow> world
     \<Rightarrow> (error + MermaidDiagram) \<times> world" where
  "add_links e objects [] mdia w = (Inr mdia, w)"
| "add_links e objects (rel # rels) mdia w =
     (case rel_step e objects rel mdia w of
        (Inl err, w1) \<Rightarrow> (Inl err, w1)
      | (Inr mdia1, w1) \<Rightarrow> add_links e objects rels mdia1 w1)"

section \<open>The sequence model: \<open>MermaidSequence\<close>\<close>











section \<open>\<open>main\<close>, flow mode\<close>










subsection \<open>What the loops are compared with\<close>

text \<open>
  The relationships whose two ends are each a key of \<open>objects\<close> or of the nodes, and the
  link \<open>add_link\<close> stores for a relationship and a label.
\<close>

definition kept_rels ::
  "(string \<times> diagram_object) list \<Rightarrow> MermaidDiagram \<Rightarrow> relationship list \<Rightarrow> relationship list" where
  "kept_rels objects mdia rels =
     filter (\<lambda>r. endpoint_known objects mdia (r_sourceId r)
                \<and> endpoint_known objects mdia (r_targetId r)) rels"

definition link_of :: "relationship \<Rightarrow> string option \<Rightarrow> link" where
  "link_of r lbl = \<lparr>l_source = r_sourceId r, l_target = r_targetId r, l_label = lbl\<rparr>"





text \<open>
  A connection qualifies when its origin and its destination are both model ids of the
  diagram; the relationship synthesized from it carries the diagram ids found for the two
  model ids by reverse lookup, the connection's name as label and its id as model id.
  A connection is well formed when it is a JSON object whose end points are not lists or
  objects, whose \<open>diagrams\<close> member, if any, is an object, and whose \<open>name\<close> and \<open>id\<close> are
  strings or null.
\<close>

definition connection_in_diagram :: "(string \<times> string) list \<Rightarrow> json \<Rightarrow> bool" where
  "connection_in_diagram dia_to_model conn =
     (case (conn_get_or conn ''originId'' ''sourceId'', conn_get_or conn ''targetId'' ''destinationId'') of
        (Inr (JStr s), Inr (JStr t)) \<Rightarrow> s \<in> snd ` set dia_to_model \<and> t \<in> snd ` set dia_to_model
      | _ \<Rightarrow> False)"

definition synthesized_from :: "(string \<times> string) list \<Rightarrow> json \<Rightarrow> relationship \<Rightarrow> bool" where
  "synthesized_from dia_to_model conn r =
     (bind_err (bind_err (conn_get_or conn ''originId'' ''sourceId'') (reverse_lookup dia_to_model))
          (\<lambda>k. Inr (Some k)) = Inr (r_sourceId r)
      \<and> bind_err (bind_err (conn_get_or conn ''targetId'' ''destinationId'') (reverse_lookup dia_to_model))
          (\<lambda>k. Inr (Some k)) = Inr (r_targetId r)
      \<and> bind_err (py_get conn ''name'' JNull) opt_str = Inr (r_label r)
      \<and> bind_err (py_get conn ''id'' JNull) opt_str = Inr (r_modelId r)
      \<and> r_name r = None)"

definition hashable :: "json \<Rightarrow> bool" where
  "hashable j = (case j of JArr _ \<Rightarrow> False | JObj _ \<Rightarrow> False | _ \<Rightarrow> True)"

definition str_or_null :: "json \<Rightarrow> bool" where
  "str_or_null j = (case j of JNull \<Rightarrow> True | JStr _ \<Rightarrow> True | _ \<Rightarrow> False)"

definition connection_ok :: "json \<Rightarrow> bool" where
  "connection_ok conn =
     (case conn of
        JObj kvs \<Rightarrow>
          list_all (\<lambda>key. case map_of kvs key of None \<Rightarrow> True | Some v \<Rightarrow> hashable v)
            [''originId'', ''sourceId'', ''targetId'', ''destinationId'']
          \<and> (case map_of kvs ''diagrams'' of None \<Rightarrow> True | Some d \<Rightarrow> isinstance_dict d)
          \<and> list_all (\<lambda>key. case map_of kvs key of None \<Rightarrow> True | Some v \<Rightarrow> str_or_null v)
            [''name'', ''id'']
      | _ \<Rightarrow> False)"

text \<open>The member of a JSON object that \<open>.get(key)\<close> returns.\<close>

definition lk :: "(string \<times> json) list \<Rightarrow> string \<Rightarrow> json" where
  "lk kvs key = (case map_of kvs key of None \<Rightarrow> JNull | Some v \<Rightarrow> v)"

text \<open>The pairs of diagram id and model id of the objects that have a model id.\<close>

definition model_pairs :: "(string \<times> diagram_object) list \<Rightarrow> (string \<times> string) list" where
  "model_pairs objects =
     map (\<lambda>item. (fst item, the (o_modelId (snd item))))
       (filter (\<lambda>item. truthy_str (o_modelId (snd item))) objects)"




section \<open>Concrete inputs\<close>

text \<open>A group \<open>A\<close> named G, a service \<open>B\<close> inside it, and one labelled link.\<close>

definition example_diagram :: MermaidDiagram where
  "example_diagram =
     add_link (Some ''B'') (Some ''A'') (Some ''uses'')
       (add_node ''B'' ''Service'' (Some ''A'')
         (add_node ''A'' ''G'' None (MermaidDiagram_init ''demo'')))"

text \<open>A service that answers every request with status 404 and an empty JSON object.\<close>

definition env_not_found :: env where
  "env_not_found =
     \<lparr>landscape_id = ''L'', version_id = ''V'',
      api = (\<lambda>url. \<lparr>status_code = 404, parsed = Some (JObj [])\<rparr>)\<rparr>"

text \<open>A service that answers every request with status 200 and an empty JSON object.\<close>

definition env_empty :: env where
  "env_empty =
     \<lparr>landscape_id = ''L'', version_id = ''V'',
      api = (\<lambda>url. \<lparr>status_code = 200, parsed = Some (JObj [])\<rparr>)\<rparr>"

text \<open>A service that answers every request with status 200 and an empty JSON list.\<close>

definition env_list :: env where
  "env_list =
     \<lparr>landscape_id = ''L'', version_id = ''V'',
      api = (\<lambda>url. \<lparr>status_code = 200, parsed = Some (JArr [])\<rparr>)\<rparr>"

text \<open>
  A service with one diagram \<open>D\<close> holding the objects \<open>X\<close> and \<open>Y\<close> of the model objects
  \<open>M1\<close> and \<open>M2\<close>; every other URL is answered with status 404.
\<close>

definition demo_diagram :: json where
  "demo_diagram =
     JObj [(''diagram'',
            JObj [(''id'', JStr ''D''),
                  (''objects'',
                   JObj [(''X'', JObj [(''modelId'', JStr ''M1'')]),
                         (''Y'', JObj [(''modelId'', JStr ''M2'')])]),
                  (''relationships'',
                   JArr [JObj [(''sourceId'', JStr ''X''), (''targetId'', JStr ''Y''),
                               (''label'', JStr ''calls'')]])])]"

definition env_demo :: env where
  "env_demo =
     \<lparr>landscape_id = ''L'', version_id = ''V'',
      api = (\<lambda>url.
        if url = ''https://api.icepanel.io/v1/landscapes/L/versions/V/diagrams/D''
        then \<lparr>status_code = 200, parsed = Some demo_diagram\<rparr>
        else if url = ''https://api.icepanel.io/v1/landscapes/L/versions/V/model/objects/M1''
        then \<lparr>status_code = 200,
              parsed = Some (JObj [(''modelObject'', JObj [(''id'', JStr ''M1''), (''name'', JStr ''Client'')])])\<rparr>
        else if url = ''https://api.icepanel.io/v1/landscapes/L/versions/V/model/objects/M2''
        then \<lparr>status_code = 200,
              parsed = Some (JObj [(''modelObject'', JObj [(''id'', JStr ''M2''), (''name'', JStr ''Server'')])])\<rparr>
        else \<lparr>status_code = 404, parsed = Some (JObj [])\<rparr>)\<rparr>"

text \<open>
  Diagram objects: a group \<open>G\<close> and the objects \<open>X\<close> and \<open>Y\<close> of \<open>env_demo\<close> inside it; and
  three relationships, of which the second ends at an unknown \<open>Z\<close> and the third has no
  source.
\<close>

definition plain_object :: diagram_object where
  "plain_object = \<lparr>o_modelId = None, o_parentId = None, o_name = None, o_type = None, o_style = False\<rparr>"

definition example_objects :: "(string \<times> diagram_object) list" where
  "example_objects =
     [(''X'', plain_object\<lparr>o_modelId := Some ''M1'', o_parentId := Some ''G''\<rparr>),
      (''G'', plain_object\<lparr>o_name := Some ''Backend''\<rparr>),
      (''Y'', plain_object\<lparr>o_modelId := Some ''M2'', o_parentId := Some ''G''\<rparr>)]"

definition plain_relationship :: relationship where
  "plain_relationship =
     \<lparr>r_sourceId = None, r_targetId = None, r_label = None, r_name = None, r_modelId = None\<rparr>"

definition example_relationships :: "relationship list" where
  "example_relationships =
     [plain_relationship\<lparr>r_sourceId := Some ''X'', r_targetId := Some ''Y'', r_label := Some ''calls''\<rparr>,
      plain_relationship\<lparr>r_sourceId := Some ''X'', r_targetId := Some ''Z'', r_label := Some ''lost''\<rparr>,
      plain_relationship\<lparr>r_targetId := Some ''Y'', r_label := Some ''orphan''\<rparr>]"

text \<open>The nodes \<open>main\<close> has built from \<open>example_objects\<close> when the links are added.\<close>

definition example_nodes :: MermaidDiagram where
  "example_nodes =
     add_node ''Y'' ''Server'' (Some ''G'')
       (add_node ''X'' ''Client'' (Some ''G'')
         (add_node ''G'' ''Backend'' None (MermaidDiagram_init ''demo'')))"


text \<open>A model object \<open>C\<close> listed before the model object \<open>P\<close> that is its parent.\<close>

definition parent_later_objects :: "(string \<times> diagram_object) list" where
  "parent_later_objects =
     [(''C'', plain_object\<lparr>o_modelId := Some ''M1'', o_parentId := Some ''P''\<rparr>),
      (''P'', plain_object\<lparr>o_modelId := Some ''M2''\<rparr>)]"

text \<open>The diagram after the iteration for \<open>C\<close>: \<open>P\<close> was synthesized as its parent.\<close>

definition parent_synthesized :: MermaidDiagram where
  "parent_synthesized =
     add_node ''C'' ''Client'' (Some ''P'')
       (add_node ''P'' ''Group'' None (MermaidDiagram_init ''demo''))"

text \<open>
  The service of \<open>env_demo\<close> with three model connections: one flagged for the diagram
  \<open>D\<close>, one without a flag, one that leaves the diagram.
\<close>

definition demo_connections :: "json list" where
  "demo_connections =
     [JObj [(''id'', JStr ''c1''), (''name'', JStr ''uses''), (''originId'', JStr ''M1''),
            (''targetId'', JStr ''M2''), (''diagrams'', JObj [(''D'', JObj [])])],
      JObj [(''id'', JStr ''c2''), (''name'', JStr ''reads''), (''originId'', JStr ''M2''),
            (''targetId'', JStr ''M1'')],
      JObj [(''id'', JStr ''c3''), (''name'', JStr ''leaves''), (''originId'', JStr ''M1''),
            (''targetId'', JStr ''M9'')]]"

definition env_connections :: env where
  "env_connections =
     env_demo\<lparr>api := (\<lambda>url.
        if url = ''https://api.icepanel.io/v1/landscapes/L/versions/V/model/connections''
        then \<lparr>status_code = 200, parsed = Some (JObj [(''modelConnections'', JArr demo_connections)])\<rparr>
        else api env_demo url)\<rparr>"



section \<open>Properties of \<open>create_file_name\<close>\<close>

lemma kept_char_keep: "(isalnum c \<or> c \<in> set keepcharacters) = kept_char c"
  by (auto simp: kept_char_def keepcharacters_def)

lemma kept_space_only:
  assumes "kept_char c" and "isspace c"
  shows "c = CHR '' ''"
proof -
  let ?n = "of_char c :: nat"
  from assms(2) have sp: "(9 \<le> ?n \<and> ?n \<le> 13) \<or> (28 \<le> ?n \<and> ?n \<le> 32) \<or> ?n = 133 \<or> ?n = 160"
    by (simp add: isspace_def Let_def)
  show ?thesis
  proof (cases "isalnum c")
    case True
    then have "(48 \<le> ?n \<and> ?n \<le> 57) \<or> (65 \<le> ?n \<and> ?n \<le> 90) \<or> (97 \<le> ?n \<and> ?n \<le> 122)
        \<or> ?n = 170 \<or> ?n = 178 \<or> ?n = 179 \<or> ?n = 181 \<or> ?n = 185 \<or> ?n = 186
        \<or> ?n = 188 \<or> ?n = 189 \<or> ?n = 190
        \<or> (192 \<le> ?n \<and> ?n \<le> 214) \<or> (216 \<le> ?n \<and> ?n \<le> 246) \<or> 248 \<le> ?n"
      by (simp add: isalnum_def Let_def)
    with sp have False by arith
    then show ?thesis ..
  next
    case False
    with assms(1) have "c = CHR '' '' \<or> c = CHR ''.'' \<or> c = CHR ''_''"
      by (simp add: kept_char_def)
    with sp show ?thesis by auto
  qed
qed

lemma isspace_space: "isspace (CHR '' '')"
  by (simp add: isspace_def)

lemma rstrip_kept:
  assumes "\<forall>c \<in> set g. kept_char c"
  shows "\<exists>n. g = rstrip g @ replicate n (CHR '' '') \<and> \<not> suffix '' '' (rstrip g)"
proof -
  let ?r = "rev g"
  have split: "?r = takeWhile isspace ?r @ dropWhile isspace ?r" by simp
  have "\<forall>c \<in> set (takeWhile isspace ?r). c = CHR '' ''"
  proof
    fix c assume c: "c \<in> set (takeWhile isspace ?r)"
    then have "isspace c" by (rule set_takeWhileD [THEN conjunct2])
    moreover from c have "c \<in> set g" by (auto dest: set_takeWhileD)
    ultimately show "c = CHR '' ''" using assms kept_space_only by blast
  qed
  then have tw: "takeWhile isspace ?r = replicate (length (takeWhile isspace ?r)) (CHR '' '')"
    by (simp add: replicate_length_same)
  have "g = rev ?r" by simp
  also have "\<dots> = rev (dropWhile isspace ?r) @ rev (takeWhile isspace ?r)"
    by (subst split) (simp only: rev_append)
  also have "\<dots> = rstrip g @ replicate (length (takeWhile isspace ?r)) (CHR '' '')"
    by (subst tw) (simp add: rstrip_def)
  finally have eq: "g = rstrip g @ replicate (length (takeWhile isspace ?r)) (CHR '' '')" .
  have "\<not> suffix '' '' (rstrip g)"
  proof
    assume "suffix '' '' (rstrip g)"
    then obtain p where "rstrip g = p @ '' ''" by (auto simp: suffix_def)
    then have "dropWhile isspace ?r = CHR '' '' # rev p"
      by (simp add: rstrip_def rev_swap)
    then have "\<not> isspace (CHR '' '')" by (simp add: dropWhile_eq_Cons_conv)
    then show False using isspace_space by simp
  qed
  with eq show ?thesis by blast
qed

text \<open>
  C9 (as stated): the result is the name with every character outside
  alphanumerics/space/period/underscore removed and every character inside that set kept,
  followed by a period and the extension. It fails on a name that ends in a space: the
  source strips trailing whitespace after filtering.
\<close>

theorem create_file_name_keeps_all_counterexample:
  "create_file_name ''a '' ''mmd'' = ''a.mmd'' \<and>
   create_file_name ''a '' ''mmd'' \<noteq> filter kept_char ''a '' @ ''.'' @ ''mmd''"
  by (simp add: create_file_name_def rstrip_def isalnum_def isspace_def keepcharacters_def
      kept_char_def)

text \<open>
  C9 (amended): \<open>create_file_name\<close> removes every character outside
  alphanumerics/space/period/underscore, keeps the others in order except for the spaces
  at the very end of what is left, which it strips, and appends a period and the
  extension.
\<close>

theorem create_file_name_spec:
  "\<exists>stem n. filter kept_char filename = stem @ replicate n (CHR '' '')
     \<and> \<not> suffix '' '' stem
     \<and> create_file_name filename extension = stem @ ''.'' @ extension"
proof -
  let ?g = "filter kept_char filename"
  have "\<forall>c \<in> set ?g. kept_char c" by simp
  from rstrip_kept [OF this] obtain n where
    "?g = rstrip ?g @ replicate n (CHR '' '')" and "\<not> suffix '' '' (rstrip ?g)" by blast
  moreover have "create_file_name filename extension = rstrip ?g @ ''.'' @ extension"
    by (simp add: create_file_name_def kept_char_keep)
  ultimately show ?thesis by blast
qed

section \<open>Properties of \<open>generate\<close>\<close>

lemma map_entry_keys: "map fst (AList.map_entry k f xs) = map fst xs"
  by (induction xs) auto

lemma reset_children_map_entry:
  "reset_children (AList.map_entry k (\<lambda>p. p\<lparr>n_children := g p\<rparr>) xs) = reset_children xs"
  by (induction xs) (auto simp: reset_children_def)

lemma reset_children_idem: "reset_children (reset_children xs) = reset_children xs"
  by (induction xs) (auto simp: reset_children_def)

lemma reset_children_keys: "map fst (reset_children xs) = map fst xs"
  by (induction xs) (auto simp: reset_children_def)

lemma link_step_reset:
  "reset_children (fst (link_step item st)) = reset_children (fst st)"
  by (cases item; cases st) (simp add: link_step_def reset_children_map_entry)

lemma fold_link_step_reset:
  "reset_children (fst (fold link_step items st)) = reset_children (fst st)"
  by (induction items arbitrary: st) (simp_all add: link_step_reset)

lemma nodes_generate:
  "nodes (snd (generate d)) = fst (fold link_step (reset_children (nodes d)) (reset_children (nodes d), []))"
  by (simp add: generate_def Let_def split: prod.splits)

lemma links_generate: "links (snd (generate d)) = links d"
  by (simp add: generate_def Let_def split: prod.splits)

lemma reset_nodes_generate: "reset_children (nodes (snd (generate d))) = reset_children (nodes d)"
  by (simp add: nodes_generate fold_link_step_reset reset_children_idem)

lemma generate_again: "generate (snd (generate d)) = generate d"
proof -
  have "generate (snd (generate d)) = 
    (let ns0 = reset_children (nodes d);
          (ns, roots) = fold link_step ns0 (ns0, []);
          graph_data = ''flowchart TD'' @ [newline]
      in (case render_nodes (Suc (length ns)) ns roots 1 of
            None \<Rightarrow> None
          | Some body \<Rightarrow> Some (graph_data @ body @ concat (map (link_line ns) (links d))),
          (snd (generate d))\<lparr>nodes := ns\<rparr>))"
    unfolding generate_def [of "snd (generate d)"] reset_nodes_generate links_generate ..
  also have "\<dots> = generate d"
    by (simp add: generate_def Let_def split: prod.splits)
  finally show ?thesis .
qed

lemma attached_alt:
  "attached ns m = (case n_parent m of None \<Rightarrow> False | Some p \<Rightarrow> p \<noteq> [] \<and> p \<in> set (map fst ns))"
  by (simp add: attached_def split: option.splits)

lemma attached_keys: "map fst ns' = map fst ns \<Longrightarrow> attached ns' m = attached ns m"
  by (simp only: attached_alt)

lemma kids_keys: "map fst ns' = map fst ns \<Longrightarrow> kids ns' items k = kids ns items k"
  by (simp only: kids_def attached_alt)

lemma root_keys_keys: "map fst ns' = map fst ns \<Longrightarrow> root_keys ns' items = root_keys ns items"
  by (simp only: root_keys_def attached_alt)

lemma fold_link_step_char:
  "fold link_step items (ns, roots) = (ns', roots') \<Longrightarrow>
     (\<forall>k. map_of ns' k = map_option (\<lambda>n. n\<lparr>n_children := n_children n @ kids ns items k\<rparr>) (map_of ns k))
     \<and> roots' = roots @ root_keys ns items \<and> map fst ns' = map fst ns"
proof (induction items arbitrary: ns roots)
  case Nil
  then show ?case by (auto simp: kids_def root_keys_def option.map_ident)
next
  case (Cons item items)
  obtain c m where item: "item = (c, m)" by (cases item)
  show ?case
  proof (cases "attached ns m")
    case True
    then obtain p where p: "n_parent m = Some p" by (auto simp: attached_def split: option.splits)
    let ?ns1 = "AList.map_entry p (\<lambda>q. q\<lparr>n_children := n_children q @ [c]\<rparr>) ns"
    have keys1: "map fst ?ns1 = map fst ns" by (rule map_entry_keys)
    have "link_step item (ns, roots) = (?ns1, roots)"
      using item True p by (simp add: link_step_def)
    with Cons.prems have "fold link_step items (?ns1, roots) = (ns', roots')"
      by simp
    from Cons.IH [OF this] have
      ih1: "\<And>k. map_of ns' k = map_option (\<lambda>n. n\<lparr>n_children := n_children n @ kids ?ns1 items k\<rparr>) (map_of ?ns1 k)"
      and ih2: "roots' = roots @ root_keys ?ns1 items" and ih3: "map fst ns' = map fst ?ns1" by auto
    have k1: "\<And>k. kids ns (item # items) k = (if k = p then c # kids ns items k else kids ns items k)"
      using True p item by (auto simp: kids_def)
    have r1: "root_keys ns (item # items) = root_keys ns items"
      using True item by (simp add: root_keys_def)
    have "\<And>k. map_of ns' k = map_option (\<lambda>n. n\<lparr>n_children := n_children n @ kids ns (item # items) k\<rparr>) (map_of ns k)"
      unfolding ih1 kids_keys [OF keys1] k1
      by (auto simp: map_of_map_entry split: option.splits)
    then show ?thesis using ih2 ih3 keys1 r1 by (simp add: root_keys_keys [OF keys1])
  next
    case False
    have "link_step item (ns, roots) = (ns, roots @ [c])"
      using item False by (simp add: link_step_def)
    with Cons.prems have "fold link_step items (ns, roots @ [c]) = (ns', roots')"
      by simp
    from Cons.IH [OF this] have
      ih1: "\<And>k. map_of ns' k = map_option (\<lambda>n. n\<lparr>n_children := n_children n @ kids ns items k\<rparr>) (map_of ns k)"
      and ih2: "roots' = (roots @ [c]) @ root_keys ns items" and ih3: "map fst ns' = map fst ns" by auto
    have k1: "\<And>k. kids ns (item # items) k = kids ns items k"
      using False item by (auto simp: kids_def)
    have r1: "root_keys ns (item # items) = c # root_keys ns items"
      using False item by (simp add: root_keys_def)
    show ?thesis using ih1 ih2 ih3 by (simp add: k1 r1)
  qed
qed

lemma depth_fun: "depth ns k d \<Longrightarrow> depth ns k d' \<Longrightarrow> d = d'"
proof (induction arbitrary: d' rule: depth.induct)
  case (depth_root k m)
  from depth_root.prems depth_root.hyps show ?case by (cases rule: depth.cases) auto
next
  case (depth_child c m k d)
  from depth_child.prems show ?case
  proof (cases rule: depth.cases)
    case (depth_root m')
    with depth_child.hyps show ?thesis by simp
  next
    case (depth_child m' k' e)
    with depth_child.hyps have "k' = k" by simp
    with depth_child depth_child.IH show ?thesis by simp
  qed
qed

lemma depth_down: "depth ns k d \<Longrightarrow> i \<le> d \<Longrightarrow> \<exists>a. depth ns a i"
proof (induction arbitrary: i rule: depth.induct)
  case (depth_root k m)
  then show ?case using depth.depth_root by blast
next
  case (depth_child c m k d)
  show ?case
  proof (cases "i = Suc d")
    case True
    then show ?thesis using depth.depth_child [OF depth_child.hyps] by blast
  next
    case False
    with depth_child.prems have "i \<le> d" by simp
    then show ?thesis by (rule depth_child.IH)
  qed
qed

lemma depth_key: "depth ns k d \<Longrightarrow> k \<in> fst ` set ns"
  by (induction rule: depth.induct) (auto dest: map_of_SomeD intro: rev_image_eqI)

lemma depth_bound:
  assumes "depth ns k d"
  shows "d < length ns"
proof -
  define f where "f i = (SOME a. depth ns a i)" for i
  have f: "depth ns (f i) i" if "i \<le> d" for i
    unfolding f_def using depth_down [OF assms that] by (rule someI_ex)
  have "inj_on f {..d}"
  proof (rule inj_onI)
    fix i j assume "i \<in> {..d}" "j \<in> {..d}" "f i = f j"
    then show "i = j" using f [of i] f [of j] depth_fun by auto
  qed
  moreover have "f ` {..d} \<subseteq> fst ` set ns"
  proof
    fix a assume "a \<in> f ` {..d}"
    then obtain i where "i \<le> d" "a = f i" by auto
    then show "a \<in> fst ` set ns" using f [of i] depth_key [of ns a i] by simp
  qed
  ultimately have "card {..d} \<le> card (fst ` set ns)"
    by (intro card_inj_on_le) auto
  also have "\<dots> \<le> length ns"
    by (metis card_image_le card_length le_trans List.finite_set)
  finally show ?thesis by simp
qed

lemma render_nodes_all:
  "\<forall>c \<in> set ks. \<exists>s. render_node fuel ns c indent = Some s \<Longrightarrow>
     \<exists>s. render_nodes fuel ns ks indent = Some s"
  by (induction ks) auto

lemma render_node_total:
  assumes wl: "well_linked ns"
  shows "depth ns k d \<Longrightarrow> length ns < d + fuel \<Longrightarrow> \<exists>s. render_node fuel ns k indent = Some s"
proof (induction fuel arbitrary: k d indent)
  case 0
  then show ?case using depth_bound [of ns k d] by simp
next
  case (Suc fuel)
  from Suc.prems(1) obtain n where n: "map_of ns k = Some n"
    by (auto elim: depth.cases)
  show ?case
  proof (cases "n_children n = []")
    case True
    with n show ?thesis by (simp add: Let_def)
  next
    case False
    have "\<forall>c \<in> set (n_children n). \<exists>s. render_node fuel ns c (indent + 1) = Some s"
    proof
      fix c assume "c \<in> set (n_children n)"
      with n have "\<exists>m. map_of ns c = Some m \<and> attached ns m \<and> n_parent m = Some k"
        using wl [unfolded well_linked_def, rule_format, of k n c] by simp
      then obtain m where "map_of ns c = Some m" "attached ns m" "n_parent m = Some k"
        by blast
      then have "depth ns c (Suc d)" using Suc.prems(1) by (rule depth_child)
      moreover have "length ns < Suc d + fuel" using Suc.prems(2) by simp
      ultimately show "\<exists>s. render_node fuel ns c (indent + 1) = Some s" by (rule Suc.IH)
    qed
    then obtain body where "render_nodes fuel ns (n_children n) (indent + 1) = Some body"
      using render_nodes_all by blast
    with n False show ?thesis by (simp add: Let_def)
  qed
qed

lemma kids_reset: "kids (reset_children ns) (reset_children ns) k = kids ns ns k"
proof -
  have a: "attached (reset_children ns) m = attached ns m" for m
    by (rule attached_keys) (rule reset_children_keys)
  have "map fst (filter (\<lambda>(c, m). attached ns m \<and> n_parent m = Some k) (reset_children xs))
      = map fst (filter (\<lambda>(c, m). attached ns m \<and> n_parent m = Some k) xs)" for xs
    by (induction xs) (auto simp: reset_children_def attached_def)
  then show ?thesis by (simp add: kids_def a)
qed

lemma reset_children_lookup:
  "map_of (reset_children ns) k = map_option (\<lambda>n. n\<lparr>n_children := []\<rparr>) (map_of ns k)"
  by (induction ns) (auto simp: reset_children_def)

lemma linked_lookup:
  assumes "fold link_step (reset_children ns) (reset_children ns, []) = (ns', roots)"
  shows "map_of ns' k = map_option (\<lambda>n. n\<lparr>n_children := kids ns ns k\<rparr>) (map_of ns k)"
    and "roots = root_keys ns' ns'" and "map fst ns' = map fst ns"
proof -
  note c = fold_link_step_char [OF assms]
  from c show keys: "map fst ns' = map fst ns" by (simp add: reset_children_keys)
  from c have "map_of ns' k = map_option (\<lambda>n. n\<lparr>n_children := n_children n @ kids (reset_children ns) (reset_children ns) k\<rparr>)
        (map_of (reset_children ns) k)" by blast
  then show "map_of ns' k = map_option (\<lambda>n. n\<lparr>n_children := kids ns ns k\<rparr>) (map_of ns k)"
    by (simp add: kids_reset reset_children_lookup option.map_comp comp_def)
  have k2: "map fst ns' = map fst (reset_children ns)" using c by simp
  have "reset_children ns' = reset_children ns"
    using fold_link_step_reset [of "reset_children ns" "(reset_children ns, [])"] assms
    by (simp add: reset_children_idem)
  have a: "attached ns' m = attached (reset_children ns) m" for m
    by (rule attached_keys) (rule k2)
  have "map fst (filter (\<lambda>(c, m). \<not> attached ns m) ys) = map fst (filter (\<lambda>(c, m). \<not> attached ns m) (reset_children ys))" for ys ns
    by (induction ys) (auto simp: reset_children_def attached_def)
  from this [of _ ns'] have "root_keys ns' ns' = root_keys ns' (reset_children ns')"
    by (simp add: root_keys_def)
  also have "\<dots> = root_keys (reset_children ns) (reset_children ns)"
    by (simp add: \<open>reset_children ns' = reset_children ns\<close> root_keys_keys [OF k2])
  finally show "roots = root_keys ns' ns'" using c by simp
qed

lemma linked_well_linked:
  assumes f: "fold link_step (reset_children ns) (reset_children ns, []) = (ns', roots)"
    and d: "distinct (map fst ns)"
  shows "well_linked ns'"
  unfolding well_linked_def
proof (intro allI impI)
  fix k n c
  assume n: "map_of ns' k = Some n" and c: "c \<in> set (n_children n)"
  from n linked_lookup(1) [OF f, of k] have "n_children n = kids ns ns k" by auto
  with c obtain m where m: "(c, m) \<in> set ns" "attached ns m" "n_parent m = Some k"
    by (auto simp: kids_def)
  from m(1) d have "map_of ns c = Some m" by simp
  then have "map_of ns' c = Some (m\<lparr>n_children := kids ns ns c\<rparr>)"
    using linked_lookup(1) [OF f, of c] by simp
  moreover have "attached ns' (m\<lparr>n_children := kids ns ns c\<rparr>)"
    using m(2) attached_keys [OF linked_lookup(3) [OF f]] by (simp add: attached_def)
  ultimately show "\<exists>m. map_of ns' c = Some m \<and> attached ns' m \<and> n_parent m = Some k"
    using m(3) by auto
qed

lemma distinct_lookup_mem: "distinct (map fst xs) \<Longrightarrow> (k, v) \<in> set xs \<Longrightarrow> map_of xs k = Some v"
  by simp

lemma generate_returns:
  assumes d: "distinct (map fst (nodes d))"
  shows "\<exists>out. fst (generate d) = Some out"
proof -
  obtain ns' roots where f:
    "fold link_step (reset_children (nodes d)) (reset_children (nodes d), []) = (ns', roots)"
    by (cases "fold link_step (reset_children (nodes d)) (reset_children (nodes d), [])")
  have wl: "well_linked ns'" using f d by (rule linked_well_linked)
  have dk: "distinct (map fst ns')" using linked_lookup(3) [OF f] d by simp
  have "\<forall>r \<in> set roots. \<exists>s. render_node (Suc (length ns')) ns' r 1 = Some s"
  proof
    fix r assume "r \<in> set roots"
    then have "r \<in> set (root_keys ns' ns')" using linked_lookup(2) [OF f] by simp
    then obtain m where m: "(r, m) \<in> set ns'" "\<not> attached ns' m"
      by (auto simp: root_keys_def)
    from dk m(1) have "map_of ns' r = Some m" by simp
    then have "depth ns' r 0" using m(2) by (rule depth_root)
    then show "\<exists>s. render_node (Suc (length ns')) ns' r 1 = Some s"
      by (rule render_node_total [OF wl]) simp
  qed
  then obtain body where "render_nodes (Suc (length ns')) ns' roots 1 = Some body"
    using render_nodes_all by blast
  with f show ?thesis by (simp add: generate_def Let_def)
qed

lemma generate_children:
  assumes "map_of (nodes (snd (generate d))) k = Some n"
  shows "n_children n = kids (nodes d) (nodes d) k"
proof -
  obtain ns' roots where f:
    "fold link_step (reset_children (nodes d)) (reset_children (nodes d), []) = (ns', roots)"
    by (cases "fold link_step (reset_children (nodes d)) (reset_children (nodes d), [])")
  then have "nodes (snd (generate d)) = ns'" by (simp add: nodes_generate)
  with assms linked_lookup(1) [OF f, of k] show ?thesis by auto
qed


text \<open>
  C5: for every diagram state (the keys of the \<open>nodes\<close> dictionary being distinct, as the
  keys of a dictionary are), \<open>generate\<close> returns a text, a second call returns the same
  text, and after the second call every node's \<open>children\<close> list is exactly the list of the
  nodes attached to it by their parent pointers, in the order of the dictionary: the lists
  are rebuilt, not accumulated.
\<close>

theorem generate_idempotent:
  assumes "distinct (map fst (nodes d))"
  shows "(\<exists>out. fst (generate d) = Some out \<and> fst (generate (snd (generate d))) = Some out)
     \<and> (\<forall>k n. map_of (nodes (snd (generate (snd (generate d))))) k = Some n \<longrightarrow>
            n_children n = kids (nodes d) (nodes d) k)"
proof (intro conjI allI impI)
  from generate_returns [OF assms] obtain out where "fst (generate d) = Some out" ..
  then show "\<exists>out. fst (generate d) = Some out \<and> fst (generate (snd (generate d))) = Some out"
    by (simp add: generate_again)
next
  fix k n
  assume "map_of (nodes (snd (generate (snd (generate d))))) k = Some n"
  then have "map_of (nodes (snd (generate d))) k = Some n" by (simp add: generate_again)
  then show "n_children n = kids (nodes d) (nodes d) k" by (rule generate_children)
qed

lemma example_diagram_nodes:
  "nodes example_diagram =
     [(''A'', \<lparr>n_id = ''A'', n_name = ''G'', n_parent = None, n_children = []\<rparr>),
      (''B'', \<lparr>n_id = ''B'', n_name = ''Service'', n_parent = Some ''A'', n_children = []\<rparr>)]"
  by code_simp

lemma example_diagram_text:
  "fst (generate example_diagram) =
     Some (''flowchart TD'' @ [newline]
       @ [tab] @ ''subgraph A ['' @ [dquote] @ ''G'' @ [dquote] @ '']'' @ [newline]
       @ [tab, tab] @ ''B['' @ [dquote] @ ''Service'' @ [dquote] @ '']'' @ [newline]
       @ [tab] @ ''end'' @ [newline]
       @ [tab] @ ''B -->|uses| A'' @ [newline])"
  by code_simp

lemma example_diagram_kids:
  "kids (nodes example_diagram) (nodes example_diagram) ''A'' = [''B'']"
  unfolding example_diagram_nodes by (simp add: kids_def attached_def)

lemma example_diagram_regenerated:
  "map_of (nodes (snd (generate (snd (generate example_diagram))))) ''A'' =
     Some \<lparr>n_id = ''A'', n_name = ''G'', n_parent = None, n_children = [''B'']\<rparr>"
  by code_simp

theorem generate_idempotent_witness:
  "distinct (map fst (nodes example_diagram))
   \<and> (\<exists>out. fst (generate example_diagram) = Some out
           \<and> fst (generate (snd (generate example_diagram))) = Some out)
   \<and> (\<exists>n. map_of (nodes (snd (generate (snd (generate example_diagram))))) ''A'' = Some n
           \<and> n_children n = [''B''])"
proof -
  have d: "distinct (map fst (nodes example_diagram))"
    by (simp add: example_diagram_nodes)
  from generate_idempotent [OF d] example_diagram_regenerated example_diagram_kids d
  show ?thesis by auto
qed

section \<open>Properties of \<open>get_model_object\<close>\<close>

lemma map_of_None_iff: "(map_of xs k = None) = (k \<notin> fst ` set xs)"
  by (simp add: map_of_eq_None_iff)

lemma get_model_object_None:
  assumes "None \<notin> fst ` set (model_objects w)"
  shows "get_model_object e None w = (Inr unknown_object, w)"
proof -
  from assms have "map_of (model_objects w) None = None" by (simp add: map_of_None_iff)
  then show ?thesis by (simp add: get_model_object_def)
qed

lemma get_model_object_cached:
  assumes "map_of (model_objects w) k = Some v"
  shows "get_model_object e k w = (Inr v, w)"
  using assms by (simp add: get_model_object_def)

lemma get_model_object_dummy:
  assumes miss: "Some mid \<notin> fst ` set (model_objects w)"
    and js: "parsed (api e (model_object_url e mid)) = Some j"
    and no_wrapper: "contains ''modelObject'' j = Inr False"
    and no_id: "contains ''id'' j = Inr False"
  shows "get_model_object e (Some mid) w =
           (Inr (dummy_object mid),
            w\<lparr>requests := requests w @ [model_object_url e mid],
              model_objects := AList.update (Some mid) (dummy_object mid) (model_objects w)\<rparr>)"
proof -
  from miss have "map_of (model_objects w) (Some mid) = None" by (simp add: map_of_None_iff)
  then show ?thesis
    using js no_wrapper no_id
    by (simp add: get_model_object_def requests_get_def response_json_def store_model_object_def)
qed

text \<open>The module starts with an empty cache and \<open>None\<close> never becomes one of its keys.\<close>

lemma get_model_object_keeps_None_out:
  assumes "None \<notin> fst ` set (model_objects w)"
  shows "None \<notin> fst ` set (model_objects (snd (get_model_object e k w)))"
proof -
  have upd: "None \<notin> fst ` set (AList.update (Some m) v (model_objects w))" for m v
    using assms by (simp add: dom_update)
  show ?thesis
    using assms upd
    by (auto simp: get_model_object_def requests_get_def store_model_object_def
        split: option.splits sum.splits bool.splits prod.splits)
qed

text \<open>
  C3 (as stated): a fetch whose response lacks an identifiable object body yields the
  sentinel \<open>{id, name: "Unknown", type: "unknown"}\<close>. The name the source gives that
  sentinel is another one.
\<close>

theorem get_model_object_sentinel_counterexample:
  "fst (get_model_object env_not_found (Some ''m1'') empty_world) =
     Inr (JObj [(''id'', JStr ''m1''), (''name'', JStr ''Unknown Model Object''),
                (''type'', JStr ''unknown'')])
   \<and> fst (get_model_object env_not_found (Some ''m1'') empty_world) \<noteq>
     Inr (JObj [(''id'', JStr ''m1''), (''name'', JStr ''Unknown''), (''type'', JStr ''unknown'')])"
  by (simp add: get_model_object_def env_not_found_def empty_world_def requests_get_def
      response_json_def contains_def store_model_object_def dummy_object_def)

text \<open>
  C3 (amended): in a state where \<open>None\<close> is not a key of the cache (every state reached from
  the empty cache), \<open>get_model_object(None)\<close> returns \<open>{id: None, name: "Unknown", type:
  "unknown"}\<close> and leaves the state, the log of requests included, as it was. For an
  identifier that is not cached, when the parsed body of the response contains neither
  \<open>"modelObject"\<close> nor \<open>"id"\<close>, \<open>get_model_object\<close> makes the one request, returns
  \<open>{id, name: "Unknown Model Object", type: "unknown"}\<close> and stores it under the
  identifier, so that the next call returns it without a request.
\<close>

theorem get_model_object_soft_failure:
  "(None \<notin> fst ` set (model_objects w) \<longrightarrow>
      get_model_object e None w =
        (Inr (JObj [(''id'', JNull), (''name'', JStr ''Unknown''), (''type'', JStr ''unknown'')]), w))
   \<and> (Some mid \<notin> fst ` set (model_objects w)
        \<and> parsed (api e (model_object_url e mid)) = Some j
        \<and> contains ''modelObject'' j = Inr False \<and> contains ''id'' j = Inr False \<longrightarrow>
      (\<exists>w'. get_model_object e (Some mid) w =
               (Inr (JObj [(''id'', JStr mid), (''name'', JStr ''Unknown Model Object''),
                           (''type'', JStr ''unknown'')]), w')
          \<and> requests w' = requests w @ [model_object_url e mid]
          \<and> map_of (model_objects w') (Some mid) =
               Some (JObj [(''id'', JStr mid), (''name'', JStr ''Unknown Model Object''),
                           (''type'', JStr ''unknown'')])
          \<and> get_model_object e (Some mid) w' =
               (Inr (JObj [(''id'', JStr mid), (''name'', JStr ''Unknown Model Object''),
                           (''type'', JStr ''unknown'')]), w')))"
proof (intro conjI impI)
  assume "None \<notin> fst ` set (model_objects w)"
  then show "get_model_object e None w =
        (Inr (JObj [(''id'', JNull), (''name'', JStr ''Unknown''), (''type'', JStr ''unknown'')]), w)"
    by (simp add: get_model_object_None unknown_object_def)
next
  assume a: "Some mid \<notin> fst ` set (model_objects w)
        \<and> parsed (api e (model_object_url e mid)) = Some j
        \<and> contains ''modelObject'' j = Inr False \<and> contains ''id'' j = Inr False"
  let ?w = "w\<lparr>requests := requests w @ [model_object_url e mid],
              model_objects := AList.update (Some mid) (dummy_object mid) (model_objects w)\<rparr>"
  from a have r: "get_model_object e (Some mid) w = (Inr (dummy_object mid), ?w)"
    by (simp add: get_model_object_dummy)
  have c: "map_of (model_objects ?w) (Some mid) = Some (dummy_object mid)"
    by (simp add: update_conv')
  from c have again: "get_model_object e (Some mid) ?w = (Inr (dummy_object mid), ?w)"
    by (rule get_model_object_cached)
  show "\<exists>w'. get_model_object e (Some mid) w =
               (Inr (JObj [(''id'', JStr mid), (''name'', JStr ''Unknown Model Object''),
                           (''type'', JStr ''unknown'')]), w')
          \<and> requests w' = requests w @ [model_object_url e mid]
          \<and> map_of (model_objects w') (Some mid) =
               Some (JObj [(''id'', JStr mid), (''name'', JStr ''Unknown Model Object''),
                           (''type'', JStr ''unknown'')])
          \<and> get_model_object e (Some mid) w' =
               (Inr (JObj [(''id'', JStr mid), (''name'', JStr ''Unknown Model Object''),
                           (''type'', JStr ''unknown'')]), w')"
    using r c again
    by (intro exI [of _ ?w]) (simp add: dummy_object_def)
qed

theorem get_model_object_soft_failure_witness:
  "None \<notin> fst ` set (model_objects empty_world)
   \<and> get_model_object env_not_found None empty_world =
        (Inr (JObj [(''id'', JNull), (''name'', JStr ''Unknown''), (''type'', JStr ''unknown'')]),
         empty_world)
   \<and> Some ''m1'' \<notin> fst ` set (model_objects empty_world)
   \<and> parsed (api env_not_found (model_object_url env_not_found ''m1'')) = Some (JObj [])
   \<and> contains ''modelObject'' (JObj []) = Inr False \<and> contains ''id'' (JObj []) = Inr False
   \<and> (\<exists>w'. get_model_object env_not_found (Some ''m1'') empty_world =
               (Inr (JObj [(''id'', JStr ''m1''), (''name'', JStr ''Unknown Model Object''),
                           (''type'', JStr ''unknown'')]), w')
          \<and> requests w' = requests empty_world @ [model_object_url env_not_found ''m1'']
          \<and> get_model_object env_not_found (Some ''m1'') w' =
               (Inr (JObj [(''id'', JStr ''m1''), (''name'', JStr ''Unknown Model Object''),
                           (''type'', JStr ''unknown'')]), w'))"
proof -
  have h1: "None \<notin> fst ` set (model_objects empty_world)"
    and h2: "Some ''m1'' \<notin> fst ` set (model_objects empty_world)"
    by (simp_all add: empty_world_def)
  have h3: "parsed (api env_not_found (model_object_url env_not_found ''m1'')) = Some (JObj [])"
    by (simp add: env_not_found_def)
  have h4: "contains ''modelObject'' (JObj []) = Inr False" "contains ''id'' (JObj []) = Inr False"
    by (simp_all add: contains_def)
  from get_model_object_soft_failure [of empty_world env_not_found "''m1''" "JObj []"] h1 h2 h3 h4
  show ?thesis by blast
qed

section \<open>Properties of \<open>get_diagram_data\<close>\<close>

lemma bind_err_simps [simp]:
  "bind_err (Inl err) f = Inl err" "bind_err (Inr x) f = f x"
  by (simp_all add: bind_err_def)

lemma bind_err_Inr: "bind_err m f = Inr y \<Longrightarrow> \<exists>x. m = Inr x \<and> f x = Inr y"
  by (cases m) simp_all


lemma final_cleanup_shape:
  assumes "final_cleanup dia objects relationships = Inr res"
  shows "\<exists>kvs ob rl. res = JObj kvs \<and> map_of kvs ''objects'' = Some ob \<and> ob \<noteq> JNull
           \<and> map_of kvs ''relationships'' = Some rl \<and> rl \<noteq> JNull \<and> \<not> isinstance_dict rl"
proof -
  let ?ob = "if objects = JNull then JObj [] else objects"
  let ?r1 = "if truthy relationships \<and> isinstance_dict relationships
             then dict_values relationships else relationships"
  let ?rl = "if \<not> truthy ?r1 then JArr [] else ?r1"
  from assms obtain items where dia: "dia = JObj items"
    by (cases dia) (simp_all add: final_cleanup_def setitem_def Let_def)
  with assms have res: "res = JObj (AList.update ''relationships'' ?rl (AList.update ''objects'' ?ob items))"
    by (simp add: final_cleanup_def setitem_def Let_def)
  have ob: "?ob \<noteq> JNull" by simp
  have rl1: "?rl \<noteq> JNull" by auto
  have rl2: "\<not> isinstance_dict ?rl"
    by (cases relationships) (auto simp: isinstance_dict_def dict_values_def)
  have "map_of (AList.update ''relationships'' ?rl (AList.update ''objects'' ?ob items)) ''objects'' = Some ?ob"
    by (simp add: update_conv')
  moreover have "map_of (AList.update ''relationships'' ?rl (AList.update ''objects'' ?ob items)) ''relationships'' = Some ?rl"
    by (simp add: update_conv')
  ultimately show ?thesis using res ob rl1 rl2 by blast
qed

lemma requests_get_frame:
  "diagram_cache (snd (requests_get e url w)) = diagram_cache w"
  "model_objects (snd (requests_get e url w)) = model_objects w"
  "requests (snd (requests_get e url w)) = requests w @ [url]"
  "fst (requests_get e url w) = api e url"
  by (simp_all add: requests_get_def)

lemma fetch_sub_resources_cache:
  "diagram_cache (snd (fetch_sub_resources e url rs st w)) = diagram_cache w"
proof (induction e url rs st w rule: fetch_sub_resources.induct)
  case (1 e url st w)
  then show ?case by simp
next
  case (2 e url sfx keys rest st w)
  obtain r_sub w1 where rg: "requests_get e (url @ sfx) w = (r_sub, w1)"
    by (cases "requests_get e (url @ sfx) w")
  then have w1: "diagram_cache w1 = diagram_cache w"
    using requests_get_frame(1) [of e "url @ sfx" w] by simp
  show ?case
  proof (cases "status_code r_sub = 200")
    case False
    with rg w1 "2.IH"(2) [OF rg [symmetric] False] show ?thesis by simp
  next
    case True
    show ?thesis
    proof (cases "bind_err (response_json r_sub) (\<lambda>data. sub_resource_step sfx keys data st)")
      case (Inl err)
      with rg True w1 show ?thesis by simp
    next
      case (Inr st1)
      show ?thesis
      proof (cases "truthy (fst st1) \<and> truthy (snd st1)")
        case True
        with rg \<open>status_code r_sub = 200\<close> Inr w1 show ?thesis by simp
      next
        case False
        with rg \<open>status_code r_sub = 200\<close> Inr w1
          "2.IH"(1) [OF rg [symmetric] \<open>status_code r_sub = 200\<close> Inr False]
        show ?thesis by simp
      qed
    qed
  qed
qed

lemma get_diagram_data_cache:
  "diagram_cache (snd (get_diagram_data e diagram_id w)) = diagram_cache w"
proof (cases "map_of (diagram_cache w) diagram_id")
  case (Some cached)
  then show ?thesis by (simp add: get_diagram_data_def)
next
  case None
  let ?url = "diagram_url e diagram_id"
  let ?w1 = "w\<lparr>requests := requests w @ [?url]\<rparr>"
  have fs: "diagram_cache x2 = diagram_cache w"
    if "fetch_sub_resources e ?url sub_resources st ?w1 = (r, x2)" for st r x2
    using fetch_sub_resources_cache [of e ?url sub_resources st ?w1] that by simp
  show ?thesis
    using None fs
    by (auto simp: get_diagram_data_def requests_get_def Let_def
        split: sum.splits prod.splits if_splits)
qed

lemma get_diagram_data_not_200:
  assumes "map_of (diagram_cache w) diagram_id = None"
    and "status_code (api e (diagram_url e diagram_id)) \<noteq> 200"
  shows "get_diagram_data e diagram_id w =
           (Inr JNull, w\<lparr>requests := requests w @ [diagram_url e diagram_id]\<rparr>)"
  using assms by (simp add: get_diagram_data_def requests_get_def Let_def)

lemma get_diagram_data_shape:
  assumes nc: "map_of (diagram_cache w) diagram_id = None"
    and ok: "status_code (api e (diagram_url e diagram_id)) = 200"
    and res: "fst (get_diagram_data e diagram_id w) = Inr res"
  shows "\<exists>kvs ob rl. res = JObj kvs \<and> map_of kvs ''objects'' = Some ob \<and> ob \<noteq> JNull
           \<and> map_of kvs ''relationships'' = Some rl \<and> rl \<noteq> JNull \<and> \<not> isinstance_dict rl"
proof -
  from nc ok res obtain dia objects relationships where
    "final_cleanup dia objects relationships = Inr res"
    by (auto simp: get_diagram_data_def requests_get_def Let_def
        split: sum.splits prod.splits if_splits)
  then show ?thesis by (rule final_cleanup_shape)
qed

lemma print_found_ok:
  "v = JNull \<or> isinstance_list v \<or> isinstance_dict v \<Longrightarrow> print_found v = Inr v"
  by (cases v) (simp_all add: print_found_def py_len_def isinstance_list_def isinstance_dict_def)

lemma relationships_ok_get:
  assumes "relationships_ok kvs"
  shows "print_found (case map_of kvs ''relationships'' of None \<Rightarrow> JArr [] | Some v \<Rightarrow> v)
         = Inr (case map_of kvs ''relationships'' of None \<Rightarrow> JArr [] | Some v \<Rightarrow> v)"
  using assms
  by (intro print_found_ok) (auto simp: relationships_ok_def isinstance_list_def split: option.splits)

lemma relationships_ok_sub:
  assumes "relationships_ok kvs" and "map_of kvs ''relationships'' = Some v"
  shows "print_found v = Inr v"
  using assms by (intro print_found_ok) (simp add: relationships_ok_def)

lemma key_in_lookup: "k \<in> fst ` set kvs \<Longrightarrow> \<exists>v. map_of kvs k = Some v"
  by (cases "map_of kvs k") (simp_all add: map_of_eq_None_iff)

lemma find_relationships_ok:
  assumes "sub_body_ok data"
  shows "\<exists>rel. find_relationships data relationships = Inr rel"
proof (cases "truthy relationships")
  case True
  then show ?thesis by (simp add: find_relationships_def)
next
  case nt: False
  from assms obtain kvs where data: "data = JObj kvs" and rk: "relationships_ok kvs"
    by (cases data) (simp_all add: sub_body_ok_def)
  have root: "\<exists>rel. bind_err (contains ''relationships'' data) (\<lambda>has_rel.
              if has_rel then bind_err (subscript data ''relationships'') print_found
              else Inr relationships) = Inr rel"
  proof (cases "map_of kvs ''relationships''")
    case None
    then have "''relationships'' \<notin> fst ` set kvs" by (simp add: map_of_eq_None_iff)
    then show ?thesis by (simp add: data contains_def)
  next
    case (Some v)
    then have "''relationships'' \<in> fst ` set kvs"
      by (metis map_of_eq_None_iff option.distinct(1))
    with Some relationships_ok_sub [OF rk Some] show ?thesis
      by (simp add: data contains_def subscript_def)
  qed
  show ?thesis
  proof (cases "map_of kvs ''diagramContent''")
    case None
    then have "''diagramContent'' \<notin> fst ` set kvs" by (simp add: map_of_eq_None_iff)
    with root nt show ?thesis
      unfolding data by (simp add: find_relationships_def contains_def)
  next
    case (Some c)
    then have has: "''diagramContent'' \<in> fst ` set kvs"
      by (metis map_of_eq_None_iff option.distinct(1))
    show ?thesis
    proof (cases "isinstance_dict c")
      case True
      then obtain cc where c: "c = JObj cc" by (cases c) (simp_all add: isinstance_dict_def)
      with assms Some data have "relationships_ok cc" by (simp add: sub_body_ok_def)
      from relationships_ok_get [OF this] show ?thesis
        using nt has Some c True
        by (simp add: find_relationships_def data contains_def subscript_def py_get_def)
    next
      case False
      with root nt has Some show ?thesis
        unfolding data by (simp add: find_relationships_def contains_def subscript_def)
    qed
  qed
qed

lemma sub_resource_step_ok:
  assumes "sub_body_ok data"
  shows "\<exists>st1. sub_resource_step sfx keys data st = Inr st1"
proof -
  obtain objects relationships where st: "st = (objects, relationships)" by (cases st)
  from find_relationships_ok [OF assms, of relationships] obtain rel where
    "find_relationships data relationships = Inr rel" ..
  then show ?thesis by (simp add: sub_resource_step_def st)
qed

lemma fetch_sub_resources_ok:
  assumes "list_all (\<lambda>(sfx, keys). status_code (api e (url @ sfx)) = 200 \<longrightarrow>
              parsed_ok sub_body_ok (api e (url @ sfx))) rs"
  shows "\<exists>st1. fst (fetch_sub_resources e url rs st w) = Inr st1"
  using assms
proof (induction rs arbitrary: st w)
  case Nil
  then show ?case by simp
next
  case (Cons r rs)
  obtain sfx keys where r: "r = (sfx, keys)" by (cases r)
  from Cons.prems have rest: "list_all (\<lambda>(sfx, keys). status_code (api e (url @ sfx)) = 200 \<longrightarrow>
              parsed_ok sub_body_ok (api e (url @ sfx))) rs" by simp
  let ?w1 = "w\<lparr>requests := requests w @ [url @ sfx]\<rparr>"
  show ?case
  proof (cases "status_code (api e (url @ sfx)) = 200")
    case False
    with Cons.IH [OF rest, of st ?w1] show ?thesis
      by (simp add: r requests_get_def)
  next
    case True
    with Cons.prems r obtain data where p: "parsed (api e (url @ sfx)) = Some data" and ok: "sub_body_ok data"
      by (auto simp: parsed_ok_def split: option.splits)
    from sub_resource_step_ok [OF ok, of sfx keys st] obtain st1 where
      s: "sub_resource_step sfx keys data st = Inr st1" ..
    show ?thesis
    proof (cases "truthy (fst st1) \<and> truthy (snd st1)")
      case True
      with s p \<open>status_code (api e (url @ sfx)) = 200\<close> show ?thesis
        by (simp add: r requests_get_def response_json_def)
    next
      case False
      with s p \<open>status_code (api e (url @ sfx)) = 200\<close> Cons.IH [OF rest, of st1 ?w1] show ?thesis
        by (simp add: r requests_get_def response_json_def)
    qed
  qed
qed

lemma primary_payload_dict:
  assumes "primary_payload response = Inr (dia, objects, relationships)"
  shows "isinstance_dict dia"
proof -
  from assms obtain d where "py_get response ''diagram'' (JObj []) = Inr d"
    and rest: "bind_err (py_get d ''objects'' JNull) (\<lambda>objects.
     bind_err (py_get d ''relationships'' (JArr [])) (\<lambda>relationships.
     bind_err (if \<not> truthy objects \<and> contains ''diagramContent'' response = Inr True
               then bind_err (subscript response ''diagramContent'') (\<lambda>c. py_get c ''objects'' JNull)
               else Inr objects) (\<lambda>objects1.
     bind_err (if \<not> truthy relationships \<and> contains ''diagramContent'' response = Inr True
               then bind_err (subscript response ''diagramContent'') (\<lambda>c. py_get c ''relationships'' JNull)
               else Inr relationships) (\<lambda>relationships1.
       Inr (d, objects1, relationships1))))) = Inr (dia, objects, relationships)"
    unfolding primary_payload_def by (auto dest!: bind_err_Inr)
  from rest have "dia = d" by (auto dest!: bind_err_Inr)
  moreover from rest obtain ob where "py_get d ''objects'' JNull = Inr ob"
    by (auto dest!: bind_err_Inr)
  then have "isinstance_dict d" by (cases d) (simp_all add: py_get_def isinstance_dict_def)
  ultimately show ?thesis by simp
qed

lemma primary_payload_ok:
  assumes "main_body_ok response"
  shows "\<exists>p. primary_payload response = Inr p"
proof -
  from assms obtain kvs where r: "response = JObj kvs"
    and d: "case map_of kvs ''diagram'' of None \<Rightarrow> True | Some d \<Rightarrow> isinstance_dict d"
    and c: "case map_of kvs ''diagramContent'' of None \<Rightarrow> True | Some c \<Rightarrow> isinstance_dict c"
    by (cases response) (simp_all add: main_body_ok_def)
  obtain dk where dia: "py_get response ''diagram'' (JObj []) = Inr (JObj dk)"
    using d by (cases "map_of kvs ''diagram''"; simp add: r py_get_def isinstance_dict_def split: json.splits) 
  have cont: "\<exists>v. bind_err (subscript response ''diagramContent'') (\<lambda>c. py_get c key JNull) = Inr v"
    if "contains ''diagramContent'' response = Inr True" for key
  proof -
    from that have "''diagramContent'' \<in> fst ` set kvs" by (simp add: r contains_def)
    from key_in_lookup [OF this] obtain cv where cv: "map_of kvs ''diagramContent'' = Some cv" ..
    with c obtain ck where "cv = JObj ck" by (cases cv) (simp_all add: isinstance_dict_def)
    with cv show ?thesis by (simp add: r subscript_def py_get_def)
  qed
  let ?ob = "case map_of dk ''objects'' of None \<Rightarrow> JNull | Some v \<Rightarrow> v"
  let ?rl = "case map_of dk ''relationships'' of None \<Rightarrow> JArr [] | Some v \<Rightarrow> v"
  obtain o1 where o1: "(if \<not> truthy ?ob \<and> contains ''diagramContent'' response = Inr True
               then bind_err (subscript response ''diagramContent'') (\<lambda>c. py_get c ''objects'' JNull)
               else Inr ?ob) = Inr o1"
    using cont [of "''objects''"] by (cases "\<not> truthy ?ob \<and> contains ''diagramContent'' response = Inr True") auto
  obtain r1 where r1: "(if \<not> truthy ?rl \<and> contains ''diagramContent'' response = Inr True
               then bind_err (subscript response ''diagramContent'') (\<lambda>c. py_get c ''relationships'' JNull)
               else Inr ?rl) = Inr r1"
    using cont [of "''relationships''"] by (cases "\<not> truthy ?rl \<and> contains ''diagramContent'' response = Inr True") auto
  have g1: "py_get (JObj dk) ''objects'' JNull = Inr ?ob"
    and g2: "py_get (JObj dk) ''relationships'' (JArr []) = Inr ?rl"
    by (simp_all add: py_get_def)
  have "primary_payload response = Inr (JObj dk, o1, r1)"
    by (simp only: primary_payload_def dia bind_err_simps g1 g2 o1 r1)
  then show ?thesis ..
qed

lemma final_cleanup_ok:
  assumes "isinstance_dict dia"
  shows "\<exists>res. final_cleanup dia objects relationships = Inr res"
  using assms by (cases dia) (simp_all add: final_cleanup_def setitem_def isinstance_dict_def Let_def)

lemma get_diagram_data_returns:
  assumes nc: "map_of (diagram_cache w) diagram_id = None"
    and ok: "status_code (api e (diagram_url e diagram_id)) = 200"
    and ws: "well_shaped e diagram_id"
  shows "\<exists>res. fst (get_diagram_data e diagram_id w) = Inr res"
proof -
  let ?url = "diagram_url e diagram_id"
  let ?w1 = "w\<lparr>requests := requests w @ [?url]\<rparr>"
  from ws obtain response where p: "parsed (api e ?url) = Some response" and mb: "main_body_ok response"
    by (auto simp: well_shaped_def parsed_ok_def split: option.splits)
  from primary_payload_ok [OF mb] obtain dia objects relationships where
    pp: "primary_payload response = Inr (dia, objects, relationships)" by (metis prod_cases3)
  have dd: "isinstance_dict dia" using pp by (rule primary_payload_dict)
  from ws have subs: "list_all (\<lambda>(sfx, keys). status_code (api e (?url @ sfx)) = 200 \<longrightarrow>
              parsed_ok sub_body_ok (api e (?url @ sfx))) sub_resources"
    by (simp add: well_shaped_def Let_def)
  obtain r2 w2 where f: "(if \<not> truthy objects \<or> \<not> truthy relationships
                           then fetch_sub_resources e ?url sub_resources (objects, relationships) ?w1
                           else (Inr (objects, relationships), ?w1)) = (r2, w2)"
    by (metis surj_pair)
  have "\<exists>objects2 relationships2. r2 = Inr (objects2, relationships2)"
  proof (cases "\<not> truthy objects \<or> \<not> truthy relationships")
    case True
    from fetch_sub_resources_ok [OF subs, of "(objects, relationships)" ?w1] obtain st1 where
      "fst (fetch_sub_resources e ?url sub_resources (objects, relationships) ?w1) = Inr st1" ..
    with True f show ?thesis by (cases st1) auto
  next
    case False
    with f show ?thesis by auto
  qed
  then obtain objects2 relationships2 where r2: "r2 = Inr (objects2, relationships2)" by blast
  from final_cleanup_ok [OF dd, of objects2 relationships2] obtain res where
    fc: "final_cleanup dia objects2 relationships2 = Inr res" ..
  have "get_diagram_data e diagram_id w = (Inr res, w2)"
    unfolding get_diagram_data_def Let_def
    using nc ok p pp f r2 fc
    by (simp add: requests_get_def response_json_def)
  then show ?thesis by simp
qed

text \<open>
  C1: after a first call for a diagram id, a later call with the same id is answered from
  the cache without a request. The source looks the id up in \<open>diagram_cache\<close> but never
  stores into it: here the second call for \<open>D\<close> requests the diagram again. (The general
  fact is \<open>get_diagram_data_cache\<close>: no call changes the cache.)
\<close>

theorem get_diagram_data_refetches:
  "requests (snd (get_diagram_data env_demo ''D'' empty_world)) =
     [''https://api.icepanel.io/v1/landscapes/L/versions/V/diagrams/D'']
   \<and> diagram_cache (snd (get_diagram_data env_demo ''D'' empty_world)) = []
   \<and> requests (snd (get_diagram_data env_demo ''D''
                      (snd (get_diagram_data env_demo ''D'' empty_world)))) =
     [''https://api.icepanel.io/v1/landscapes/L/versions/V/diagrams/D'',
      ''https://api.icepanel.io/v1/landscapes/L/versions/V/diagrams/D'']"
  by code_simp

theorem get_diagram_data_refetches_witness:
  "length (requests (snd (get_diagram_data env_demo ''D''
                      (snd (get_diagram_data env_demo ''D'' empty_world))))) = 2
   \<and> map_of (diagram_cache (snd (get_diagram_data env_demo ''D'' empty_world))) ''D'' = None"
  using get_diagram_data_refetches by simp

text \<open>
  C2 (as stated): for every response the resolver returns a result with non-None
  \<open>objects\<close> and \<open>relationships\<close> and never raises. For a status other than 200 the result
  is \<open>None\<close>; for a body that is a JSON list the call raises \<open>AttributeError\<close>.
\<close>

theorem get_diagram_data_counterexample:
  "fst (get_diagram_data env_not_found ''D'' empty_world) = Inr JNull
   \<and> fst (get_diagram_data env_list ''D'' empty_world) = Inl AttributeError"
  by code_simp

text \<open>
  C2 (amended): for a diagram id that is not cached, when the main request has a status
  other than 200 the resolver returns \<open>None\<close> after that one request and raises nothing;
  when the status is 200 and the responses are well shaped (the main body a JSON object
  whose \<open>diagram\<close> and \<open>diagramContent\<close> members are objects where present, every
  sub-resource body of status 200 a JSON object whose \<open>relationships\<close> members are null,
  lists or objects) the resolver raises nothing; and with status 200 every result it
  returns is the diagram object with \<open>objects\<close> and \<open>relationships\<close> set to values that
  are not \<open>None\<close>, \<open>relationships\<close> never a keyed mapping.
\<close>

theorem get_diagram_data_result:
  assumes "map_of (diagram_cache w) diagram_id = None"
  shows "(status_code (api e (diagram_url e diagram_id)) \<noteq> 200 \<longrightarrow>
            get_diagram_data e diagram_id w =
              (Inr JNull, w\<lparr>requests := requests w @ [diagram_url e diagram_id]\<rparr>))
       \<and> (status_code (api e (diagram_url e diagram_id)) = 200 \<and> well_shaped e diagram_id \<longrightarrow>
            (\<exists>res. fst (get_diagram_data e diagram_id w) = Inr res))
       \<and> (status_code (api e (diagram_url e diagram_id)) = 200 \<longrightarrow>
            (\<forall>res. fst (get_diagram_data e diagram_id w) = Inr res \<longrightarrow>
               (\<exists>kvs ob rl. res = JObj kvs
                  \<and> map_of kvs ''objects'' = Some ob \<and> ob \<noteq> JNull
                  \<and> map_of kvs ''relationships'' = Some rl \<and> rl \<noteq> JNull
                  \<and> \<not> isinstance_dict rl)))"
  using assms get_diagram_data_not_200 get_diagram_data_returns get_diagram_data_shape
  by blast

lemma env_empty_well_shaped: "well_shaped env_empty ''D''"
  by code_simp

lemma env_empty_result:
  "fst (get_diagram_data env_empty ''D'' empty_world) =
     Inr (JObj [(''objects'', JObj []), (''relationships'', JArr [])])"
  by code_simp

theorem get_diagram_data_result_witness:
  "map_of (diagram_cache empty_world) ''D'' = None
   \<and> status_code (api env_not_found (diagram_url env_not_found ''D'')) \<noteq> 200
   \<and> fst (get_diagram_data env_not_found ''D'' empty_world) = Inr JNull
   \<and> status_code (api env_empty (diagram_url env_empty ''D'')) = 200
   \<and> well_shaped env_empty ''D''
   \<and> (\<exists>kvs ob rl. fst (get_diagram_data env_empty ''D'' empty_world) = Inr (JObj kvs)
         \<and> map_of kvs ''objects'' = Some ob \<and> ob \<noteq> JNull
         \<and> map_of kvs ''relationships'' = Some rl \<and> rl \<noteq> JNull \<and> \<not> isinstance_dict rl)"
proof -
  have c: "map_of (diagram_cache empty_world) ''D'' = None" by (simp add: empty_world_def)
  have s1: "status_code (api env_not_found (diagram_url env_not_found ''D'')) \<noteq> 200"
    by (simp add: env_not_found_def)
  have s2: "status_code (api env_empty (diagram_url env_empty ''D'')) = 200"
    by (simp add: env_empty_def)
  from get_diagram_data_result [OF c, of env_not_found] s1
  have "fst (get_diagram_data env_not_found ''D'' empty_world) = Inr JNull" by simp
  moreover have "\<exists>kvs ob rl. fst (get_diagram_data env_empty ''D'' empty_world) = Inr (JObj kvs)
         \<and> map_of kvs ''objects'' = Some ob \<and> ob \<noteq> JNull
         \<and> map_of kvs ''relationships'' = Some rl \<and> rl \<noteq> JNull \<and> \<not> isinstance_dict rl"
  proof -
    note t = get_diagram_data_result [OF c, of env_empty]
    from t s2 env_empty_well_shaped obtain res where
      r: "fst (get_diagram_data env_empty ''D'' empty_world) = Inr res" by blast
    with t s2 obtain kvs ob rl where "res = JObj kvs"
      "map_of kvs ''objects'' = Some ob" "ob \<noteq> JNull"
      "map_of kvs ''relationships'' = Some rl" "rl \<noteq> JNull" "\<not> isinstance_dict rl" by blast
    with r show ?thesis by blast
  qed
  ultimately show ?thesis using c s1 s2 env_empty_well_shaped by blast
qed

section \<open>Properties of the links\<close>

lemma link_line_cong:
  assumes "\<And>k. map_option n_id (map_of ns k) = map_option n_id (map_of ns' k)"
  shows "link_line ns l = link_line ns' l"
proof -
  have g: "map_option n_id (nodes_get ns key) = map_option n_id (nodes_get ns' key)" for key
    using assms by (cases key) (simp_all add: nodes_get_def)
  from g [of "l_source l"] g [of "l_target l"] show ?thesis
    by (cases "nodes_get ns (l_source l)"; cases "nodes_get ns' (l_source l)";
        cases "nodes_get ns (l_target l)"; cases "nodes_get ns' (l_target l)")
       (simp_all add: link_line_def split: option.splits)
qed

lemma generate_text:
  "fst (generate d) =
     map_option (\<lambda>t. t @ concat (map (link_line (nodes d)) (links d)))
       (fst (generate (d\<lparr>links := []\<rparr>)))"
proof -
  obtain ns' roots where f:
    "fold link_step (reset_children (nodes d)) (reset_children (nodes d), []) = (ns', roots)"
    by (cases "fold link_step (reset_children (nodes d)) (reset_children (nodes d), [])")
  have "map_option n_id (map_of ns' k) = map_option n_id (map_of (nodes d) k)" for k
    using linked_lookup(1) [OF f, of k] by (cases "map_of (nodes d) k") simp_all
  then have "link_line ns' l = link_line (nodes d) l" for l
    by (rule link_line_cong)
  then have eq: "link_line ns' = link_line (nodes d)" by (rule ext)
  show ?thesis
    by (simp add: generate_def Let_def f eq split: option.splits)
qed

lemma link_line_nonempty:
  assumes "link_line ns l \<noteq> []"
  shows "\<exists>s t. l_source l = Some s \<and> l_target l = Some t \<and> s \<in> fst ` set ns \<and> t \<in> fst ` set ns"
proof -
  from assms obtain a b where a: "nodes_get ns (l_source l) = Some a" and b: "nodes_get ns (l_target l) = Some b"
    by (cases "nodes_get ns (l_source l)"; cases "nodes_get ns (l_target l)") (simp_all add: link_line_def)
  from a obtain s where s: "l_source l = Some s" "map_of ns s = Some a"
    by (cases "l_source l") (simp_all add: nodes_get_def)
  from b obtain t where t: "l_target l = Some t" "map_of ns t = Some b"
    by (cases "l_target l") (simp_all add: nodes_get_def)
  from s(2) t(2) have "s \<in> fst ` set ns" "t \<in> fst ` set ns"
    by (metis map_of_eq_None_iff option.distinct(1))+
  with s(1) t(1) show ?thesis by blast
qed

lemma rel_step_effect:
  assumes "rel_step e objects rel mdia w = (Inr mdia1, w1)"
  shows "nodes mdia1 = nodes mdia \<and>
         (\<exists>lbl. links mdia1 = links mdia @ map (\<lambda>r. link_of r lbl) (kept_rels objects mdia [rel]))"
proof -
  from assms obtain lbl where "rel_label e rel w = (Inr lbl, w1)"
    and m: "mdia1 = (if endpoint_known objects mdia (r_sourceId rel)
                   \<and> endpoint_known objects mdia (r_targetId rel)
                then add_link (r_sourceId rel) (r_targetId rel) lbl mdia
                else mdia)"
    by (auto simp: rel_step_def split: prod.splits sum.splits)
  show ?thesis
  proof (cases "endpoint_known objects mdia (r_sourceId rel) \<and> endpoint_known objects mdia (r_targetId rel)")
    case True
    with m have "nodes mdia1 = nodes mdia"
      and "links mdia1 = links mdia @ map (\<lambda>r. link_of r lbl) (kept_rels objects mdia [rel])"
      by (simp_all add: add_link_def kept_rels_def link_of_def)
    then show ?thesis by blast
  next
    case False
    with m have "nodes mdia1 = nodes mdia"
      and "links mdia1 = links mdia @ map (\<lambda>r. link_of r lbl) (kept_rels objects mdia [rel])"
      by (auto simp add: kept_rels_def)
    then show ?thesis by blast
  qed
qed

lemma endpoint_known_nodes:
  "nodes mdia1 = nodes mdia \<Longrightarrow> endpoint_known objects mdia1 = endpoint_known objects mdia"
  by (rule ext) (simp add: endpoint_known_def split: option.splits)

lemma kept_rels_nodes:
  assumes "nodes mdia1 = nodes mdia"
  shows "kept_rels objects mdia1 rels = kept_rels objects mdia rels"
  unfolding kept_rels_def endpoint_known_nodes [OF assms] ..

lemma add_links_effect:
  assumes "add_links e objects rels mdia w = (Inr mdia', w')"
  shows "nodes mdia' = nodes mdia \<and>
         (\<exists>lbls. length lbls = length (kept_rels objects mdia rels) \<and>
            links mdia' = links mdia @ map2 link_of (kept_rels objects mdia rels) lbls)"
  using assms
proof (induction rels arbitrary: mdia w)
  case Nil
  then show ?case by (simp add: kept_rels_def)
next
  case (Cons rel rels)
  from Cons.prems obtain mdia1 w1 where s: "rel_step e objects rel mdia w = (Inr mdia1, w1)"
    and r: "add_links e objects rels mdia1 w1 = (Inr mdia', w')"
    by (auto split: prod.splits sum.splits)
  from rel_step_effect [OF s] obtain lbl where n1: "nodes mdia1 = nodes mdia"
    and l1: "links mdia1 = links mdia @ map (\<lambda>r. link_of r lbl) (kept_rels objects mdia [rel])"
    by blast
  from Cons.IH [OF r] obtain lbls where n2: "nodes mdia' = nodes mdia1"
    and len: "length lbls = length (kept_rels objects mdia1 rels)"
    and l2: "links mdia' = links mdia1 @ map2 link_of (kept_rels objects mdia1 rels) lbls"
    by blast
  note k = kept_rels_nodes [OF n1, of objects]
  define first where "first = kept_rels objects mdia [rel]"
  define rest where "rest = kept_rels objects mdia rels"
  let ?ls = "replicate (length first) lbl @ lbls"
  have split: "kept_rels objects mdia (rel # rels) = first @ rest"
    by (simp add: kept_rels_def first_def rest_def)
  have m: "map (\<lambda>r. link_of r lbl) first = map2 link_of first (replicate (length first) lbl)"
    by (induction first) simp_all
  have len': "length lbls = length rest" using len by (simp add: k rest_def)
  have "length ?ls = length (kept_rels objects mdia (rel # rels))"
    using len' by (simp add: split)
  moreover have "links mdia' = links mdia @ map2 link_of (kept_rels objects mdia (rel # rels)) ?ls"
  proof -
    have "links mdia' = (links mdia @ map (\<lambda>r. link_of r lbl) first) @ map2 link_of rest lbls"
      using l2 l1 by (simp add: k first_def rest_def)
    also have "\<dots> = links mdia @ map2 link_of (first @ rest) ?ls"
      by (simp add: m zip_append)
    finally show ?thesis by (simp only: split)
  qed
  ultimately show ?case using n1 n2 by (intro conjI exI [of _ ?ls]) simp_all
qed

text \<open>
  C6: a relationship of which one end is a key neither of \<open>objects\<close> nor of the nodes gets
  no link, so no edge line; an edge line is written only for a link whose two ends are
  nodes. The loop leaves the nodes as they are and appends one link for each relationship
  whose two ends are known, in order, and for no other; the text of \<open>generate\<close> is the
  text of the nodes followed by the lines of the links; and the line of a link is empty
  unless both of its ends are keys of the nodes.
\<close>

theorem unresolved_relationship_no_edge:
  assumes "add_links e objects rels mdia w = (Inr mdia', w')"
  shows "nodes mdia' = nodes mdia
     \<and> (\<exists>lbls. length lbls = length (kept_rels objects mdia rels)
           \<and> links mdia' = links mdia @ map2 link_of (kept_rels objects mdia rels) lbls)
     \<and> fst (generate mdia') =
          map_option (\<lambda>t. t @ concat (map (link_line (nodes mdia)) (links mdia')))
            (fst (generate (mdia'\<lparr>links := []\<rparr>)))
     \<and> (\<forall>l. link_line (nodes mdia) l \<noteq> [] \<longrightarrow>
           (\<exists>s t. l_source l = Some s \<and> l_target l = Some t
              \<and> s \<in> fst ` set (nodes mdia) \<and> t \<in> fst ` set (nodes mdia)))"
proof -
  note eff = add_links_effect [OF assms]
  from eff have n: "nodes mdia' = nodes mdia" by blast
  have "fst (generate mdia') =
          map_option (\<lambda>t. t @ concat (map (link_line (nodes mdia)) (links mdia')))
            (fst (generate (mdia'\<lparr>links := []\<rparr>)))"
    using generate_text [of mdia'] by (simp add: n)
  with eff link_line_nonempty show ?thesis by blast
qed

lemma example_links_run:
  "add_links env_demo example_objects example_relationships example_nodes empty_world =
     (Inr (add_link (Some ''X'') (Some ''Y'') (Some ''calls'') example_nodes), empty_world)"
  by code_simp

lemma example_links_kept:
  "kept_rels example_objects example_nodes example_relationships =
     [plain_relationship\<lparr>r_sourceId := Some ''X'', r_targetId := Some ''Y'', r_label := Some ''calls''\<rparr>]"
  by code_simp

lemma example_links_text:
  "concat (map (link_line (nodes example_nodes))
     (links (add_link (Some ''X'') (Some ''Y'') (Some ''calls'') example_nodes))) =
   [tab] @ ''X -->|calls| Y'' @ [newline]"
  by code_simp

theorem unresolved_relationship_no_edge_witness:
  "add_links env_demo example_objects example_relationships example_nodes empty_world =
     (Inr (add_link (Some ''X'') (Some ''Y'') (Some ''calls'') example_nodes), empty_world)
   \<and> length (kept_rels example_objects example_nodes example_relationships) = 1
   \<and> fst (generate (add_link (Some ''X'') (Some ''Y'') (Some ''calls'') example_nodes)) =
        map_option (\<lambda>t. t @ [tab] @ ''X -->|calls| Y'' @ [newline])
          (fst (generate ((add_link (Some ''X'') (Some ''Y'') (Some ''calls'') example_nodes)\<lparr>links := []\<rparr>)))"
  using unresolved_relationship_no_edge [OF example_links_run]
    example_links_run example_links_kept example_links_text
  by simp

section \<open>Properties of the hierarchy pass\<close>


lemma add_node_lookup:
  "map_of (nodes (add_node k nm p d)) k' =
     (if k' = k
      then Some \<lparr>n_id = filter (\<lambda>c. isalnum c \<or> c = CHR ''_'') k, n_name = escape_quotes nm,
                 n_parent = p, n_children = []\<rparr>
      else map_of (nodes d) k')"
  by (simp add: add_node_def update_conv')

lemma add_node_links: "links (add_node k nm p d) = links d"
  by (simp add: add_node_def)

lemma add_node_order:
  "k \<in> fst ` set (nodes d) \<Longrightarrow> map fst (nodes (add_node k nm p d)) = map fst (nodes d)"
  by (simp add: add_node_def update_keys)


























text \<open>
  C10: \<open>add_node\<close> with an id that is (or is not) a key of the nodes stores the new entry
  under that id (new safe id, escaped name, parent, no children), leaves the entry of every
  other id and the links as they were, and keeps the order of the keys when the id was
  there. Consequently the iteration of the hierarchy loop for a model object, when it
  completes, leaves under the object's id an entry with the model object's name, whatever
  entry (a parent synthesized from a child, say) was there before.
\<close>

theorem add_node_last_write_wins:
  "map_of (nodes (add_node k nm p d)) k =
     Some \<lparr>n_id = filter (\<lambda>c. isalnum c \<or> c = CHR ''_'') k, n_name = escape_quotes nm,
           n_parent = p, n_children = []\<rparr>
   \<and> (\<forall>k'. k' \<noteq> k \<longrightarrow> map_of (nodes (add_node k nm p d)) k' = map_of (nodes d) k')
   \<and> links (add_node k nm p d) = links d
   \<and> (k \<in> fst ` set (nodes d) \<longrightarrow> map fst (nodes (add_node k nm p d)) = map fst (nodes d))
   \<and> (\<forall>e objs d2m ob w d' w'.
         truthy_str (o_modelId ob) \<longrightarrow> hier_step e objs d2m (k, ob) d w = (Inr d', w') \<longrightarrow>
         (\<exists>model_obj model_nm fp.
             fst (get_model_object e (o_modelId ob) w) = Inr model_obj
           \<and> subscript model_obj ''name'' = Inr (JStr model_nm)
           \<and> map_of (nodes d') k =
               Some \<lparr>n_id = filter (\<lambda>c. isalnum c \<or> c = CHR ''_'') k,
                     n_name = escape_quotes model_nm, n_parent = fp, n_children = []\<rparr>))"
proof (intro conjI allI impI)
  show "map_of (nodes (add_node k nm p d)) k =
     Some \<lparr>n_id = filter (\<lambda>c. isalnum c \<or> c = CHR ''_'') k, n_name = escape_quotes nm,
           n_parent = p, n_children = []\<rparr>"
    by (simp add: add_node_lookup)
  show "map_of (nodes (add_node k nm p d)) k' = map_of (nodes d) k'" if "k' \<noteq> k" for k'
    using that by (simp add: add_node_lookup)
  show "links (add_node k nm p d) = links d" by (rule add_node_links)
  show "map fst (nodes (add_node k nm p d)) = map fst (nodes d)" if "k \<in> fst ` set (nodes d)"
    using that by (rule add_node_order)
next
  fix e objs d2m ob w d' w'
  assume m: "truthy_str (o_modelId ob)" and run: "hier_step e objs d2m (k, ob) d w = (Inr d', w')"
  from run m obtain model_obj w1 where g: "get_model_object e (o_modelId ob) w = (Inr model_obj, w1)"
    and r: "bind_err (resolve_parent d2m model_obj (o_parentId ob)) (\<lambda>final_parent_id.
                bind_err (model_name model_obj) (\<lambda>nm.
                  Inr (add_node k nm final_parent_id
                         (ensure_parent objs final_parent_id d)))) = Inr d'"
    by (auto simp: hier_step_def split: prod.splits sum.splits)
  from r obtain fp model_nm where mn: "model_name model_obj = Inr model_nm"
    and d': "d' = add_node k model_nm fp (ensure_parent objs fp d)"
    by (auto dest!: bind_err_Inr)
  from mn have "subscript model_obj ''name'' = Inr (JStr model_nm)"
    by (auto simp: model_name_def split: json.splits dest!: bind_err_Inr)
  with g d' show "\<exists>model_obj model_nm fp.
             fst (get_model_object e (o_modelId ob) w) = Inr model_obj
           \<and> subscript model_obj ''name'' = Inr (JStr model_nm)
           \<and> map_of (nodes d') k =
               Some \<lparr>n_id = filter (\<lambda>c. isalnum c \<or> c = CHR ''_'') k,
                     n_name = escape_quotes model_nm, n_parent = fp, n_children = []\<rparr>"
    by (auto simp: add_node_lookup)
qed

lemma parent_later_step:
  "hier_step env_demo parent_later_objects (dia_to_model_of parent_later_objects)
     (''P'', plain_object\<lparr>o_modelId := Some ''M2''\<rparr>) parent_synthesized empty_world =
   (Inr (add_node ''P'' ''Server'' None parent_synthesized),
    empty_world\<lparr>model_objects := [(Some ''M2'', JObj [(''id'', JStr ''M2''), (''name'', JStr ''Server'')])],
                requests := [''https://api.icepanel.io/v1/landscapes/L/versions/V/model/objects/M2'']\<rparr>)"
  by code_simp

lemma parent_synthesized_entry:
  "map_of (nodes parent_synthesized) ''P'' = Some \<lparr>n_id = ''P'', n_name = ''Group'', n_parent = None, n_children = []\<rparr>"
  "''P'' \<in> fst ` set (nodes parent_synthesized)"
  by code_simp+

theorem add_node_last_write_wins_witness:
  "map_of (nodes parent_synthesized) ''P'' = Some \<lparr>n_id = ''P'', n_name = ''Group'', n_parent = None, n_children = []\<rparr>
   \<and> fst (hier_step env_demo parent_later_objects (dia_to_model_of parent_later_objects)
           (''P'', plain_object\<lparr>o_modelId := Some ''M2''\<rparr>) parent_synthesized empty_world) =
       Inr (add_node ''P'' ''Server'' None parent_synthesized)
   \<and> map_of (nodes (add_node ''P'' ''Server'' None parent_synthesized)) ''P'' = Some \<lparr>n_id = ''P'', n_name = ''Server'', n_parent = None, n_children = []\<rparr>
   \<and> map_of (nodes (add_node ''P'' ''Server'' None parent_synthesized)) ''C'' =
       map_of (nodes parent_synthesized) ''C''
   \<and> map fst (nodes (add_node ''P'' ''Server'' None parent_synthesized)) =
       map fst (nodes parent_synthesized)"
proof -
  note t = add_node_last_write_wins [of "''P''" "''Server''" None parent_synthesized]
  note t1 = t [THEN conjunct1]
  note t2 = t [THEN conjunct2, THEN conjunct1]
  note t4 = t [THEN conjunct2, THEN conjunct2, THEN conjunct2, THEN conjunct1]
  have safe: "filter (\<lambda>c. isalnum c \<or> c = CHR ''_'') ''P'' = ''P''"
    and esc: "escape_quotes ''Server'' = ''Server''"
    by code_simp+
  have a: "map_of (nodes (add_node ''P'' ''Server'' None parent_synthesized)) ''P'' = Some \<lparr>n_id = ''P'', n_name = ''Server'', n_parent = None, n_children = []\<rparr>"
    using t1 unfolding safe esc .
  have ne: "''C'' \<noteq> ''P''" by simp
  have b: "map_of (nodes (add_node ''P'' ''Server'' None parent_synthesized)) ''C'' =
       map_of (nodes parent_synthesized) ''C''"
    using t2 [THEN spec, of "''C''", THEN mp, OF ne] .
  from t4 parent_synthesized_entry(2)
  have c: "map fst (nodes (add_node ''P'' ''Server'' None parent_synthesized)) =
       map fst (nodes parent_synthesized)" by (rule mp)
  have d: "fst (hier_step env_demo parent_later_objects (dia_to_model_of parent_later_objects)
           (''P'', plain_object\<lparr>o_modelId := Some ''M2''\<rparr>) parent_synthesized empty_world) =
       Inr (add_node ''P'' ''Server'' None parent_synthesized)"
    by (simp only: parent_later_step fst_conv)
  from parent_synthesized_entry(1) d a b c show ?thesis by (intro conjI)
qed

section \<open>Properties of the inference from model connections\<close>


lemma in_model_ids_True:
  "in_model_ids x d2m = Inr True \<longleftrightarrow> (\<exists>s. x = JStr s \<and> s \<in> snd ` set d2m)"
  by (cases x) (auto simp: in_model_ids_def)

lemma connection_in_diagram_iff:
  assumes "conn_get_or conn ''originId'' ''sourceId'' = Inr sm"
    and "conn_get_or conn ''targetId'' ''destinationId'' = Inr tm"
  shows "connection_in_diagram d2m conn \<longleftrightarrow>
           in_model_ids sm d2m = Inr True \<and> in_model_ids tm d2m = Inr True"
  using assms
  by (cases sm; cases tm) (auto simp: connection_in_diagram_def in_model_ids_def)

lemma infer_step_char:
  assumes "infer_step dia_id d2m conn rels = Inr rels'"
  shows "(connection_in_diagram d2m conn \<and> (\<exists>r. rels' = rels @ [r] \<and> synthesized_from d2m conn r))
       \<or> (\<not> connection_in_diagram d2m conn \<and> rels' = rels)"
proof -
  from assms obtain sm tm src_in tgt_in where
    sm: "conn_get_or conn ''originId'' ''sourceId'' = Inr sm"
    and tm: "conn_get_or conn ''targetId'' ''destinationId'' = Inr tm"
    and si: "in_model_ids sm d2m = Inr src_in"
    and ti: "(if src_in then in_model_ids tm d2m else Inr False) = Inr tgt_in"
    and rest: "(if src_in \<and> tgt_in
       then
         bind_err (bind_err (py_get conn ''diagrams'' (JObj [])) dict_keys) (\<lambda>dia_keys.
           if dia_id \<in> set dia_keys \<or> (src_in \<and> tgt_in)
           then
             bind_err (reverse_lookup d2m sm) (\<lambda>source_id.
             bind_err (reverse_lookup d2m tm) (\<lambda>target_id.
             bind_err (bind_err (py_get conn ''name'' JNull) opt_str) (\<lambda>lbl.
             bind_err (bind_err (py_get conn ''id'' JNull) opt_str) (\<lambda>model_id.
               Inr (rels @
                      [\<lparr>r_sourceId = Some source_id, r_targetId = Some target_id,
                        r_label = lbl, r_name = None, r_modelId = model_id\<rparr>])))))
           else Inr rels)
       else Inr rels) = Inr rels'"
    unfolding infer_step_def by (auto dest!: bind_err_Inr)
  note iff = connection_in_diagram_iff [OF sm tm, of d2m]
  show ?thesis
  proof (cases "src_in \<and> tgt_in")
    case False
    with si ti have "\<not> (in_model_ids sm d2m = Inr True \<and> in_model_ids tm d2m = Inr True)"
      by (auto split: if_splits)
    with iff rest False show ?thesis by auto
  next
    case True
    with si ti have "in_model_ids sm d2m = Inr True \<and> in_model_ids tm d2m = Inr True"
      by (auto split: if_splits)
    with iff have q: "connection_in_diagram d2m conn" by simp
    from rest True obtain source_id target_id lbl model_id where
      "reverse_lookup d2m sm = Inr source_id" "reverse_lookup d2m tm = Inr target_id"
      "bind_err (py_get conn ''name'' JNull) opt_str = Inr lbl"
      "bind_err (py_get conn ''id'' JNull) opt_str = Inr model_id"
      and r: "rels' = rels @ [\<lparr>r_sourceId = Some source_id, r_targetId = Some target_id,
                        r_label = lbl, r_name = None, r_modelId = model_id\<rparr>]"
      by (auto dest!: bind_err_Inr)
    then have "synthesized_from d2m conn \<lparr>r_sourceId = Some source_id, r_targetId = Some target_id,
                        r_label = lbl, r_name = None, r_modelId = model_id\<rparr>"
      using sm tm by (simp add: synthesized_from_def)
    with q r show ?thesis by blast
  qed
qed

lemma infer_loop_char:
  assumes "infer_loop dia_id d2m conns rels = Inr rels'"
  shows "\<exists>new. rels' = rels @ new
           \<and> list_all2 (\<lambda>r conn. synthesized_from d2m conn r) new (filter (connection_in_diagram d2m) conns)"
  using assms
proof (induction conns arbitrary: rels)
  case Nil
  then show ?case by simp
next
  case (Cons conn conns)
  from Cons.prems obtain rels1 where s: "infer_step dia_id d2m conn rels = Inr rels1"
    and l: "infer_loop dia_id d2m conns rels1 = Inr rels'"
    by (auto dest!: bind_err_Inr)
  from Cons.IH [OF l] obtain new where n: "rels' = rels1 @ new"
    and a: "list_all2 (\<lambda>r conn. synthesized_from d2m conn r) new (filter (connection_in_diagram d2m) conns)"
    by blast
  from infer_step_char [OF s] show ?case
  proof
    assume "connection_in_diagram d2m conn \<and> (\<exists>r. rels1 = rels @ [r] \<and> synthesized_from d2m conn r)"
    then obtain r where q: "connection_in_diagram d2m conn" and r: "rels1 = rels @ [r]" "synthesized_from d2m conn r"
      by blast
    with n a show ?thesis by (intro exI [of _ "r # new"]) simp
  next
    assume "\<not> connection_in_diagram d2m conn \<and> rels1 = rels"
    with n a show ?thesis by (intro exI [of _ new]) simp
  qed
qed

lemma py_get_dict: "py_get (JObj kvs) key JNull = Inr (lk kvs key)"
  by (simp add: py_get_def lk_def)

lemma conn_get_or_dict:
  "conn_get_or (JObj kvs) a b = Inr (py_or (lk kvs a) (lk kvs b))"
  by (simp add: conn_get_or_def py_get_dict py_or_def)

lemma hashable_in: "hashable x \<Longrightarrow> \<exists>b. in_model_ids x d2m = Inr b"
  by (cases x) (auto simp: hashable_def in_model_ids_def)

lemma reverse_lookup_ok:
  assumes "in_model_ids x d2m = Inr True"
  shows "\<exists>k. reverse_lookup d2m x = Inr k"
proof -
  from assms obtain s where x: "x = JStr s" and s: "s \<in> snd ` set d2m"
    by (auto simp: in_model_ids_True)
  then obtain kv where "kv \<in> set d2m" "JStr (snd kv) = x" by auto
  then have "filter (\<lambda>kv. JStr (snd kv) = x) d2m \<noteq> []"
    by (auto simp: filter_empty_conv)
  then show ?thesis
    by (cases "filter (\<lambda>kv. JStr (snd kv) = x) d2m") (simp_all add: reverse_lookup_def)
qed

lemma opt_str_ok: "str_or_null v \<Longrightarrow> \<exists>x. opt_str v = Inr x"
  by (cases v) (simp_all add: str_or_null_def opt_str_def)

lemma lk_ok:
  assumes "case map_of kvs key of None \<Rightarrow> True | Some v \<Rightarrow> P v" and "P JNull"
  shows "P (lk kvs key)"
  using assms by (simp add: lk_def split: option.splits)

lemma infer_step_ok:
  assumes "connection_ok conn"
  shows "\<exists>rels'. infer_step dia_id d2m conn rels = Inr rels'"
proof -
  from assms obtain kvs where conn: "conn = JObj kvs"
    and h: "list_all (\<lambda>key. case map_of kvs key of None \<Rightarrow> True | Some v \<Rightarrow> hashable v)
            [''originId'', ''sourceId'', ''targetId'', ''destinationId'']"
    and dg: "case map_of kvs ''diagrams'' of None \<Rightarrow> True | Some d \<Rightarrow> isinstance_dict d"
    and ns: "list_all (\<lambda>key. case map_of kvs key of None \<Rightarrow> True | Some v \<Rightarrow> str_or_null v)
            [''name'', ''id'']"
    by (cases conn) (simp_all add: connection_ok_def)
  have hn: "hashable JNull" by (simp add: hashable_def)
  have sn: "str_or_null JNull" by (simp add: str_or_null_def)
  let ?sm = "py_or (lk kvs ''originId'') (lk kvs ''sourceId'')"
  let ?tm = "py_or (lk kvs ''targetId'') (lk kvs ''destinationId'')"
  from h have "hashable (lk kvs ''originId'')" "hashable (lk kvs ''sourceId'')"
    "hashable (lk kvs ''targetId'')" "hashable (lk kvs ''destinationId'')"
    by (auto intro!: lk_ok hn)
  then have hs: "hashable ?sm" and ht: "hashable ?tm" by (simp_all add: py_or_def)
  from hashable_in [OF hs] obtain src_in where si: "in_model_ids ?sm d2m = Inr src_in" by blast
  from hashable_in [OF ht] obtain t0 where t0: "in_model_ids ?tm d2m = Inr t0" by blast
  define tgt_in where "tgt_in = (if src_in then t0 else False)"
  have ti: "(if src_in then in_model_ids ?tm d2m else Inr False) = Inr tgt_in"
    by (simp add: tgt_in_def t0)
  from ns have "str_or_null (lk kvs ''name'')" "str_or_null (lk kvs ''id'')"
    by (auto intro!: lk_ok sn)
  then obtain lbl model_id where lbl: "opt_str (lk kvs ''name'') = Inr lbl"
    and mid: "opt_str (lk kvs ''id'') = Inr model_id"
    using opt_str_ok by blast
  obtain dia_keys where dk: "bind_err (py_get conn ''diagrams'' (JObj [])) dict_keys = Inr dia_keys"
    using dg by (cases "map_of kvs ''diagrams''")
      (auto simp: conn py_get_def dict_keys_def isinstance_dict_def split: json.splits)
  show ?thesis
  proof (cases "src_in \<and> tgt_in")
    case False
    then show ?thesis
      unfolding infer_step_def conn conn_get_or_dict bind_err_simps si ti by auto
  next
    case True
    then have "in_model_ids ?sm d2m = Inr True" "in_model_ids ?tm d2m = Inr True"
      using si t0 by (simp_all add: tgt_in_def)
    then obtain source_id target_id where
      "reverse_lookup d2m ?sm = Inr source_id" "reverse_lookup d2m ?tm = Inr target_id"
      using reverse_lookup_ok by blast
    with True dk lbl mid show ?thesis
      unfolding infer_step_def conn_get_or_dict [of kvs, folded conn] bind_err_simps si ti
      by (simp add: conn py_get_dict)
  qed
qed

lemma infer_loop_ok:
  assumes "list_all connection_ok conns"
  shows "\<exists>rels'. infer_loop dia_id d2m conns rels = Inr rels'"
  using assms
proof (induction conns arbitrary: rels)
  case Nil
  then show ?case by simp
next
  case (Cons conn conns)
  then obtain rels1 where "infer_step dia_id d2m conn rels = Inr rels1"
    using infer_step_ok by fastforce
  moreover from Cons obtain rels' where "infer_loop dia_id d2m conns rels1 = Inr rels'"
    by fastforce
  ultimately show ?case by simp
qed

lemma update_fresh: "k \<notin> fst ` set al \<Longrightarrow> AList.update k v al = al @ [(k, v)]"
  by (induction al) auto

lemma dia_to_model_fold:
  assumes "distinct (map fst objs)" and "fst ` set objs \<inter> fst ` set acc = {}"
  shows "fold (\<lambda>item acc. case item of (obj_id, obj_data) \<Rightarrow>
             (case o_modelId obj_data of
                Some m \<Rightarrow> if m \<noteq> [] then AList.update obj_id m acc else acc
              | None \<Rightarrow> acc)) objs acc = acc @ model_pairs objs"
  using assms
proof (induction objs arbitrary: acc)
  case Nil
  then show ?case by (simp add: model_pairs_def)
next
  case (Cons item objs)
  obtain k ob where item: "item = (k, ob)" by (cases item)
  from Cons.prems have fresh: "k \<notin> fst ` set acc" and d: "distinct (map fst objs)"
    and kn: "k \<notin> fst ` set objs" and disj: "fst ` set objs \<inter> fst ` set acc = {}"
    by (auto simp: item)
  show ?case
  proof (cases "truthy_str (o_modelId ob)")
    case True
    then obtain m where m: "o_modelId ob = Some m" "m \<noteq> []"
      by (auto simp: truthy_str_def split: option.splits)
    have "fst ` set objs \<inter> fst ` set (acc @ [(k, m)]) = {}" using disj kn by auto
    from Cons.IH [OF d this] m True fresh show ?thesis
      by (simp add: item update_fresh model_pairs_def)
  next
    case False
    from Cons.IH [OF d disj] False show ?thesis
      by (auto simp: item model_pairs_def truthy_str_def split: option.splits)
  qed
qed

lemma dia_to_model_pairs:
  "distinct (map fst objs) \<Longrightarrow> dia_to_model_of objs = model_pairs objs"
  using dia_to_model_fold [of objs "[]"] by (simp add: dia_to_model_of_def)

lemma infer_nonempty:
  "relationships \<noteq> [] \<Longrightarrow> infer_relationships e dia_id d2m relationships w = (Inr relationships, w)"
  by (simp add: infer_relationships_def)

lemma infer_not_200:
  "status_code (api e (connections_url e)) \<noteq> 200 \<Longrightarrow>
     infer_relationships e dia_id d2m [] w = (Inr [], w\<lparr>requests := requests w @ [connections_url e]\<rparr>)"
  by (simp add: infer_relationships_def requests_get_def)

lemma infer_200:
  assumes "status_code (api e (connections_url e)) = 200"
    and "parsed (api e (connections_url e)) = Some response"
    and "py_get response ''modelConnections'' (JArr []) = Inr (JArr conns)"
  shows "fst (infer_relationships e dia_id d2m [] w) = infer_loop dia_id d2m conns []"
  using assms
  by (simp add: infer_relationships_def requests_get_def response_json_def py_len_def py_iter_def)

text \<open>
  C4: the inference runs only when the diagram has no relationship: with a non-empty list
  nothing is requested and the list is returned as it is. With an empty list and a
  connections response of status 200 whose \<open>modelConnections\<close> is a list, a run that
  completes returns exactly one relationship for each connection whose origin and
  destination are both model ids of the diagram, in the order of the connections, each
  synthesized from its connection by reverse lookup; whether the connection's \<open>diagrams\<close>
  flag lists the diagram plays no part. The run completes when the connections are well
  formed. The model ids of the diagram are those of \<open>dia_to_model\<close>, the pairs of the
  objects that have a model id.
\<close>

theorem inference_from_connections:
  assumes "distinct (map fst objects)"
  shows "dia_to_model_of objects = model_pairs objects
     \<and> (relationships \<noteq> [] \<longrightarrow>
          infer_relationships e dia_id (dia_to_model_of objects) relationships w =
            (Inr relationships, w))
     \<and> (status_code (api e (connections_url e)) \<noteq> 200 \<longrightarrow>
          infer_relationships e dia_id (dia_to_model_of objects) [] w =
            (Inr [], w\<lparr>requests := requests w @ [connections_url e]\<rparr>))
     \<and> (status_code (api e (connections_url e)) = 200
          \<and> parsed (api e (connections_url e)) = Some response
          \<and> py_get response ''modelConnections'' (JArr []) = Inr (JArr conns) \<longrightarrow>
          (\<forall>rels. fst (infer_relationships e dia_id (dia_to_model_of objects) [] w) = Inr rels \<longrightarrow>
             list_all2 (\<lambda>r conn. synthesized_from (dia_to_model_of objects) conn r) rels
               (filter (connection_in_diagram (dia_to_model_of objects)) conns))
          \<and> (list_all connection_ok conns \<longrightarrow>
               (\<exists>rels. fst (infer_relationships e dia_id (dia_to_model_of objects) [] w) = Inr rels)))"
proof (intro conjI impI allI)
  show "dia_to_model_of objects = model_pairs objects"
    using assms by (rule dia_to_model_pairs)
  show "infer_relationships e dia_id (dia_to_model_of objects) relationships w = (Inr relationships, w)"
    if "relationships \<noteq> []" using that by (rule infer_nonempty)
  show "infer_relationships e dia_id (dia_to_model_of objects) [] w =
            (Inr [], w\<lparr>requests := requests w @ [connections_url e]\<rparr>)"
    if "status_code (api e (connections_url e)) \<noteq> 200" using that by (rule infer_not_200)
next
  fix rels
  assume a: "status_code (api e (connections_url e)) = 200
          \<and> parsed (api e (connections_url e)) = Some response
          \<and> py_get response ''modelConnections'' (JArr []) = Inr (JArr conns)"
    and r: "fst (infer_relationships e dia_id (dia_to_model_of objects) [] w) = Inr rels"
  have "fst (infer_relationships e dia_id (dia_to_model_of objects) [] w) =
      infer_loop dia_id (dia_to_model_of objects) conns []"
    by (rule infer_200 [OF a [THEN conjunct1] a [THEN conjunct2, THEN conjunct1]
          a [THEN conjunct2, THEN conjunct2]])
  with r have "infer_loop dia_id (dia_to_model_of objects) conns [] = Inr rels" by simp
  from infer_loop_char [OF this]
  show "list_all2 (\<lambda>r conn. synthesized_from (dia_to_model_of objects) conn r) rels
               (filter (connection_in_diagram (dia_to_model_of objects)) conns)" by simp
next
  assume a: "status_code (api e (connections_url e)) = 200
          \<and> parsed (api e (connections_url e)) = Some response
          \<and> py_get response ''modelConnections'' (JArr []) = Inr (JArr conns)"
    and ok: "list_all connection_ok conns"
  have "fst (infer_relationships e dia_id (dia_to_model_of objects) [] w) =
      infer_loop dia_id (dia_to_model_of objects) conns []"
    by (rule infer_200 [OF a [THEN conjunct1] a [THEN conjunct2, THEN conjunct1]
          a [THEN conjunct2, THEN conjunct2]])
  with infer_loop_ok [OF ok, of dia_id "dia_to_model_of objects" "[]"]
  show "\<exists>rels. fst (infer_relationships e dia_id (dia_to_model_of objects) [] w) = Inr rels"
    by simp
qed

lemma example_inference_facts:
  "distinct (map fst example_objects)"
  "status_code (api env_connections (connections_url env_connections)) = 200"
  "parsed (api env_connections (connections_url env_connections)) =
     Some (JObj [(''modelConnections'', JArr demo_connections)])"
  "py_get (JObj [(''modelConnections'', JArr demo_connections)]) ''modelConnections'' (JArr []) =
     Inr (JArr demo_connections)"
  "list_all connection_ok demo_connections"
  by code_simp+

lemma example_inference_run:
  "fst (infer_relationships env_connections ''D'' (dia_to_model_of example_objects) [] empty_world) =
     Inr [\<lparr>r_sourceId = Some ''X'', r_targetId = Some ''Y'', r_label = Some ''uses'',
            r_name = None, r_modelId = Some ''c1''\<rparr>,
          \<lparr>r_sourceId = Some ''Y'', r_targetId = Some ''X'', r_label = Some ''reads'',
            r_name = None, r_modelId = Some ''c2''\<rparr>]"
  by code_simp

lemma example_inference_qualifying:
  "filter (connection_in_diagram (dia_to_model_of example_objects)) demo_connections =
     take 2 demo_connections"
  by code_simp

theorem inference_from_connections_witness:
  "distinct (map fst example_objects)
   \<and> dia_to_model_of example_objects = model_pairs example_objects
   \<and> infer_relationships env_connections ''D'' (dia_to_model_of example_objects)
        example_relationships empty_world = (Inr example_relationships, empty_world)
   \<and> fst (infer_relationships env_connections ''D'' (dia_to_model_of example_objects) [] empty_world) =
       Inr [\<lparr>r_sourceId = Some ''X'', r_targetId = Some ''Y'', r_label = Some ''uses'',
              r_name = None, r_modelId = Some ''c1''\<rparr>,
            \<lparr>r_sourceId = Some ''Y'', r_targetId = Some ''X'', r_label = Some ''reads'',
              r_name = None, r_modelId = Some ''c2''\<rparr>]
   \<and> list_all2 (\<lambda>r conn. synthesized_from (dia_to_model_of example_objects) conn r)
        [\<lparr>r_sourceId = Some ''X'', r_targetId = Some ''Y'', r_label = Some ''uses'',
              r_name = None, r_modelId = Some ''c1''\<rparr>,
            \<lparr>r_sourceId = Some ''Y'', r_targetId = Some ''X'', r_label = Some ''reads'',
              r_name = None, r_modelId = Some ''c2''\<rparr>]
        (take 2 demo_connections)"
proof -
  note t = inference_from_connections [OF example_inference_facts(1),
      of example_relationships env_connections "''D''" empty_world
         "JObj [(''modelConnections'', JArr demo_connections)]" demo_connections]
  have ne: "example_relationships \<noteq> []" by (simp add: example_relationships_def)
  from t have a: "dia_to_model_of example_objects = model_pairs example_objects" by (rule conjunct1)
  from t ne have b: "infer_relationships env_connections ''D'' (dia_to_model_of example_objects)
        example_relationships empty_world = (Inr example_relationships, empty_world)" by blast
  from t example_inference_facts(2,3,4) example_inference_run
  have c: "list_all2 (\<lambda>r conn. synthesized_from (dia_to_model_of example_objects) conn r)
        [\<lparr>r_sourceId = Some ''X'', r_targetId = Some ''Y'', r_label = Some ''uses'',
              r_name = None, r_modelId = Some ''c1''\<rparr>,
            \<lparr>r_sourceId = Some ''Y'', r_targetId = Some ''X'', r_label = Some ''reads'',
              r_name = None, r_modelId = Some ''c2''\<rparr>]
        (filter (connection_in_diagram (dia_to_model_of example_objects)) demo_connections)"
    by blast
  from example_inference_facts(1) a b example_inference_run c show ?thesis
    unfolding example_inference_qualifying by (intro conjI)
qed

section \<open>Properties of the sequence rendering\<close>



















end
